theory Spec2Isabelle
  imports Complex_Main "HOL-Library.Word"
begin

section \<open>JavaScript numbers and arrays\<close>

text \<open>
  A JavaScript number is an IEEE 754 double, here the real number it stands for; PCM samples
  are the integers among them. \<open>Math.round\<close> rounds to the nearest integer, a tie towards
  plus infinity. \<open>a || b\<close> on numbers yields \<open>b\<close> when \<open>a\<close> is missing or zero.
\<close>

definition Math_round :: "real \<Rightarrow> int" where
  "Math_round x = \<lfloor>x + 1 / 2\<rfloor>"

text \<open>
  Rounding a real to the nearest double (binary64: 53 significant bits, exponents from -1022,
  below that the fixed spacing of the subnormal numbers), a tie to the even significand.
  \<open>exponent x\<close> is the \<open>e\<close> with \<open>2^e \<le> |x| < 2^(e+1)\<close>, found from the number of bits
  of the integer part of \<open>|x|\<close> or of \<open>1 / |x|\<close>. Overflow to Infinity, from \<open>2^1024\<close> on,
  is outside this model.
\<close>

definition pow2 :: "int \<Rightarrow> real" where
  "pow2 k = (if 0 \<le> k then 2 ^ nat k else 1 / 2 ^ nat (- k))"

fun bitlength :: "nat \<Rightarrow> nat" where
  "bitlength n = (if n = 0 then 0 else Suc (bitlength (n div 2)))"

declare bitlength.simps [simp del]

definition exponent :: "real \<Rightarrow> int" where
  "exponent x =
     (if 1 \<le> \<bar>x\<bar> then int (bitlength (nat \<lfloor>\<bar>x\<bar>\<rfloor>)) - 1
      else - int (bitlength (nat (\<lceil>1 / \<bar>x\<bar>\<rceil> - 1))))"

definition roundTiesToEven :: "real \<Rightarrow> int" where
  "roundTiesToEven x =
     (let n = \<lfloor>x\<rfloor>; r = x - real_of_int n
      in if r < 1 / 2 then n else if 1 / 2 < r then n + 1 else if even n then n else n + 1)"

definition binary64 :: "real \<Rightarrow> real" where
  "binary64 x =
     (if x = 0 then 0
      else let e = max (exponent x) (- 1022); ulp = pow2 (e - 52)
           in real_of_int (roundTiesToEven (x / ulp)) * ulp)"

text \<open>
  The arithmetic operators on doubles: the exact result, rounded. They are used where the
  source computes fractions; sums, differences and means of 16-bit samples are exact in
  doubles and are written with the operators of the reals.
\<close>

definition js_add :: "real \<Rightarrow> real \<Rightarrow> real" where
  "js_add a b = binary64 (a + b)"

definition js_sub :: "real \<Rightarrow> real \<Rightarrow> real" where
  "js_sub a b = binary64 (a - b)"

definition js_mul :: "real \<Rightarrow> real \<Rightarrow> real" where
  "js_mul a b = binary64 (a * b)"

definition js_div :: "real \<Rightarrow> real \<Rightarrow> real" where
  "js_div a b = binary64 (a / b)"

definition js_or :: "real option \<Rightarrow> real \<Rightarrow> real" where
  "js_or a b = (case a of None \<Rightarrow> b | Some v \<Rightarrow> if v = 0 then b else v)"

text \<open>
  \<open>array.slice(a, b)\<close> for \<open>0 \<le> a \<le> b\<close>; the end is cut at the length of the array.
\<close>

definition array_slice :: "'a list \<Rightarrow> nat \<Rightarrow> nat \<Rightarrow> 'a list" where
  "array_slice xs a b = take (b - a) (drop a xs)"

text \<open>The arithmetic mean of a sample array, the quantity the specification speaks of.\<close>

definition mean :: "int list \<Rightarrow> real" where
  "mean xs = real_of_int (sum_list xs) / real (length xs)"

section \<open>Audio shaping (services/streamServer.js)\<close>

text \<open>
  \<open>_removeDCOffset(samples)\<close>: an empty array is returned as it is; otherwise the mean is
  \<open>samples.reduce((sum, val) => sum + val, 0) / samples.length\<close> and every sample becomes
  \<open>Math.round(sample - mean)\<close>.
\<close>

definition removeDCOffset :: "int list \<Rightarrow> int list" where
  "removeDCOffset samples =
     (if length samples = 0 then samples
      else let mean = real_of_int (foldl (\<lambda>sum val. sum + val) 0 samples) / real (length samples)
           in map (\<lambda>sample. Math_round (real_of_int sample - mean)) samples)"


section \<open>AudioProcessor (services/audioProcessor.js)\<close>

text \<open>
  The options object handed to the constructor: every field may be missing. The constructor
  fills each with \<open>config.field || default\<close>.
\<close>

record ConfigOptions =
  opt_minAudioDuration :: "real option"
  opt_maxAudioDuration :: "real option"
  opt_silenceThreshold :: "real option"
  opt_silenceAmplitude :: "real option"
  opt_sampleRate :: "real option"
  opt_bitsPerSample :: "real option"
  opt_channels :: "real option"

record Config =
  minAudioDuration :: real
  maxAudioDuration :: real
  silenceThreshold :: real
  silenceAmplitude :: real
  sampleRate :: real
  bitsPerSample :: real
  channels :: real

record AudioProcessor =
  config :: Config
  samples :: "int list"
  totalSamples :: nat
  startTime :: int
  lastAudioTime :: int
  consecutiveSilentPackets :: nat

text \<open>\<open>Date.now()\<close> is the parameter \<open>now\<close> (milliseconds) of every operation that reads the clock.\<close>

definition mkConfig :: "ConfigOptions \<Rightarrow> Config" where
  "mkConfig c =
     \<lparr> minAudioDuration = js_or (opt_minAudioDuration c) 1000,
       maxAudioDuration = js_or (opt_maxAudioDuration c) 5000,
       silenceThreshold = js_or (opt_silenceThreshold c) 1000,
       silenceAmplitude = js_or (opt_silenceAmplitude c) 100,
       sampleRate = js_or (opt_sampleRate c) 8000,
       bitsPerSample = js_or (opt_bitsPerSample c) 16,
       channels = js_or (opt_channels c) 1 \<rparr>"

definition noOptions :: ConfigOptions where
  "noOptions =
     \<lparr> opt_minAudioDuration = None, opt_maxAudioDuration = None, opt_silenceThreshold = None,
       opt_silenceAmplitude = None, opt_sampleRate = None, opt_bitsPerSample = None,
       opt_channels = None \<rparr>"

definition newAudioProcessor :: "int \<Rightarrow> ConfigOptions \<Rightarrow> AudioProcessor" where
  "newAudioProcessor now c =
     \<lparr> config = mkConfig c, samples = [], totalSamples = 0, startTime = now,
       lastAudioTime = now, consecutiveSilentPackets = 0 \<rparr>"

text \<open>The root mean square of a packet, \<open>Math.sqrt(sum / samples.length)\<close>.\<close>

definition rms :: "int list \<Rightarrow> real" where
  "rms xs = sqrt (real_of_int (foldl (\<lambda>acc sample. acc + sample * sample) 0 xs) / real (length xs))"

definition detectAudioActivity :: "AudioProcessor \<Rightarrow> int list \<Rightarrow> bool" where
  "detectAudioActivity p xs = (rms xs > silenceAmplitude (config p))"

definition addSamples :: "int \<Rightarrow> int list \<Rightarrow> AudioProcessor \<Rightarrow> AudioProcessor" where
  "addSamples now xs p =
     (if length xs = 0 then p
      else let p1 = p\<lparr>samples := samples p @ xs, totalSamples := totalSamples p + length xs\<rparr>
           in if detectAudioActivity p1 xs
              then p1\<lparr>lastAudioTime := now, consecutiveSilentPackets := 0\<rparr>
              else p1\<lparr>consecutiveSilentPackets := consecutiveSilentPackets p1 + 1\<rparr>)"

definition getDurationMs :: "AudioProcessor \<Rightarrow> real" where
  "getDurationMs p = (real (totalSamples p) / sampleRate (config p)) * 1000"

definition isSilent :: "int \<Rightarrow> AudioProcessor \<Rightarrow> bool" where
  "isSilent now p =
     (let silenceDuration = now - lastAudioTime p
      in real_of_int silenceDuration \<ge> silenceThreshold (config p))"

definition shouldSendToAPI :: "int \<Rightarrow> AudioProcessor \<Rightarrow> bool" where
  "shouldSendToAPI now p =
     (let duration = getDurationMs p;
          hasMinAudio = (duration \<ge> minAudioDuration (config p));
          hasMaxAudio = (duration \<ge> maxAudioDuration (config p));
          silenceDetected = isSilent now p
      in if hasMaxAudio then True
         else if silenceDetected \<and> hasMinAudio then True
         else if silenceDetected \<and> \<not> hasMinAudio then False
         else False)"

definition reset :: "int \<Rightarrow> AudioProcessor \<Rightarrow> AudioProcessor" where
  "reset now p =
     p\<lparr>samples := [], totalSamples := 0, startTime := now, lastAudioTime := now,
       consecutiveSilentPackets := 0\<rparr>"



section \<open>WAV encoding (services/audioProcessor.js, toWAVBuffer)\<close>

text \<open>
  Errors thrown by the runtime are values. The Buffer operations below are those of Node.js:
  \<open>Buffer.allocUnsafe(size)\<close> throws a RangeError for a size outside
  \<open>0 .. kMaxLength\<close> (a constant of the runtime, a parameter here) and otherwise yields
  \<open>\<lfloor>size\<rfloor>\<close> bytes of arbitrary content (the parameter \<open>junk\<close>); the integer writers
  throw a RangeError for a value outside the range of the field or a field that does not fit
  into the buffer, and store the integer part of the value, least significant byte first.
\<close>

datatype js_error = RangeError | TypeError | ExternalError

type_synonym byte = "8 word"

definition allocUnsafe :: "nat \<Rightarrow> (nat \<Rightarrow> byte) \<Rightarrow> real \<Rightarrow> js_error + byte list" where
  "allocUnsafe kMaxLength junk sz =
     (if sz < 0 \<or> sz > real kMaxLength then Inl RangeError
      else Inr (map junk [0..<nat \<lfloor>sz\<rfloor>]))"

definition zeroMemory :: "nat \<Rightarrow> byte" where
  "zeroMemory i = 0"

text \<open>Storing bytes from an offset on; what does not fit is dropped.\<close>

definition buf_set :: "byte list \<Rightarrow> nat \<Rightarrow> byte list \<Rightarrow> byte list" where
  "buf_set buf offset bytes =
     take offset buf @ take (length buf - offset) bytes @ drop (offset + length bytes) buf"

definition le_bytes :: "nat \<Rightarrow> int \<Rightarrow> byte list" where
  "le_bytes n v = map (\<lambda>k. word_of_int (v div 256 ^ k)) [0..<n]"

definition ascii_bytes :: "string \<Rightarrow> byte list" where
  "ascii_bytes s = map (\<lambda>c. word_of_nat (of_char c)) s"

text \<open>
  The writer state is the buffer and the local variable \<open>offset\<close>. Each step below is one
  line of the source: a write at \<open>offset\<close> followed by \<open>offset += n\<close>.
\<close>

type_synonym writer = "byte list \<times> nat"

definition buffer_write :: "string \<Rightarrow> writer \<Rightarrow> js_error + writer" where
  "buffer_write s w =
     (case w of (buf, offset) \<Rightarrow>
        if offset > length buf then Inl RangeError
        else Inr (buf_set buf offset (ascii_bytes s), offset + 4))"

definition writeUInt32LE :: "real \<Rightarrow> writer \<Rightarrow> js_error + writer" where
  "writeUInt32LE v w =
     (case w of (buf, offset) \<Rightarrow>
        if v > 4294967295 \<or> v < 0 then Inl RangeError
        else if offset + 4 > length buf then Inl RangeError
        else Inr (buf_set buf offset (le_bytes 4 \<lfloor>v\<rfloor>), offset + 4))"

definition writeUInt16LE :: "real \<Rightarrow> writer \<Rightarrow> js_error + writer" where
  "writeUInt16LE v w =
     (case w of (buf, offset) \<Rightarrow>
        if v > 65535 \<or> v < 0 then Inl RangeError
        else if offset + 2 > length buf then Inl RangeError
        else Inr (buf_set buf offset (le_bytes 2 \<lfloor>v\<rfloor>), offset + 2))"

definition writeInt16LE :: "int \<Rightarrow> writer \<Rightarrow> js_error + writer" where
  "writeInt16LE v w =
     (case w of (buf, offset) \<Rightarrow>
        if v > 32767 \<or> v < - 32768 then Inl RangeError
        else if offset + 2 > length buf then Inl RangeError
        else Inr (buf_set buf offset (le_bytes 2 v), offset + 2))"

text \<open>Running the statements in order; the first error ends the run, as a throw does.\<close>

fun run :: "(writer \<Rightarrow> js_error + writer) list \<Rightarrow> writer \<Rightarrow> js_error + writer" where
  "run [] w = Inr w"
| "run (step # steps) w = (case step w of Inl e \<Rightarrow> Inl e | Inr w' \<Rightarrow> run steps w')"

text \<open>
  \<open>toWAVBuffer()\<close>: \<open>null\<close> (here \<open>None\<close>) for an empty buffer, otherwise the header
  writes and the sample loop.
\<close>

definition toWAVBuffer :: "nat \<Rightarrow> (nat \<Rightarrow> byte) \<Rightarrow> AudioProcessor \<Rightarrow> js_error + byte list option" where
  "toWAVBuffer kMaxLength junk p =
     (if length (samples p) = 0 then Inr None
      else let rate = sampleRate (config p);
               numChannels = channels (config p);
               bits = bitsPerSample (config p);
               bytesPerSample = bits / 8;
               dataSize = real (length (samples p)) * bytesPerSample;
               fileSize = 44 + dataSize
           in case allocUnsafe kMaxLength junk fileSize of
                Inl e \<Rightarrow> Inl e
              | Inr buffer \<Rightarrow>
                  (case run ([ buffer_write ''RIFF'',
                               writeUInt32LE (fileSize - 8),
                               buffer_write ''WAVE'',
                               buffer_write ''fmt '',
                               writeUInt32LE 16,
                               writeUInt16LE 1,
                               writeUInt16LE numChannels,
                               writeUInt32LE rate,
                               writeUInt32LE (rate * numChannels * bytesPerSample),
                               writeUInt16LE (numChannels * bytesPerSample),
                               writeUInt16LE bits,
                               buffer_write ''data'',
                               writeUInt32LE dataSize ]
                             @ map writeInt16LE (samples p)) (buffer, 0) of
                     Inl e \<Rightarrow> Inl e
                   | Inr (buffer', offset) \<Rightarrow> Inr (Some buffer')))"

subsection \<open>Decoding a WAV container\<close>

text \<open>
  Modelled from the spec: the decoder of the WAV round trip, which the source does not have.
  It reads the canonical 44-byte RIFF/WAVE header (RIFF chunk, \<open>fmt\<close> sub-chunk, \<open>data\<close>
  sub-chunk) field by field, little-endian, and then the 16-bit samples of the data sub-chunk.
\<close>

record WavHeader =
  wav_chunkId :: string
  wav_chunkSize :: nat
  wav_format :: string
  wav_subchunk1Id :: string
  wav_subchunk1Size :: nat
  wav_audioFormat :: nat
  wav_numChannels :: nat
  wav_sampleRate :: nat
  wav_byteRate :: nat
  wav_blockAlign :: nat
  wav_bitsPerSample :: nat
  wav_subchunk2Id :: string
  wav_subchunk2Size :: nat

definition le_decode :: "byte list \<Rightarrow> nat" where
  "le_decode bs = foldr (\<lambda>b acc. unat b + 256 * acc) bs 0"

definition readUIntLE :: "byte list \<Rightarrow> nat \<Rightarrow> nat \<Rightarrow> nat" where
  "readUIntLE buf offset n = le_decode (array_slice buf offset (offset + n))"

definition readInt16LE :: "byte list \<Rightarrow> nat \<Rightarrow> int" where
  "readInt16LE buf offset =
     (let u = readUIntLE buf offset 2 in if u \<ge> 32768 then int u - 65536 else int u)"

definition readAscii :: "byte list \<Rightarrow> nat \<Rightarrow> nat \<Rightarrow> string" where
  "readAscii buf offset n = map (\<lambda>b. char_of (unat b)) (array_slice buf offset (offset + n))"

definition decodeWAV :: "byte list \<Rightarrow> (WavHeader \<times> int list) option" where
  "decodeWAV buf =
     (if length buf < 44 then None
      else let dataSize = readUIntLE buf 40 4
           in if length buf < 44 + dataSize then None
              else Some (\<lparr> wav_chunkId = readAscii buf 0 4,
                           wav_chunkSize = readUIntLE buf 4 4,
                           wav_format = readAscii buf 8 4,
                           wav_subchunk1Id = readAscii buf 12 4,
                           wav_subchunk1Size = readUIntLE buf 16 4,
                           wav_audioFormat = readUIntLE buf 20 2,
                           wav_numChannels = readUIntLE buf 22 2,
                           wav_sampleRate = readUIntLE buf 24 4,
                           wav_byteRate = readUIntLE buf 28 4,
                           wav_blockAlign = readUIntLE buf 32 2,
                           wav_bitsPerSample = readUIntLE buf 34 2,
                           wav_subchunk2Id = readAscii buf 36 4,
                           wav_subchunk2Size = dataSize \<rparr>,
                         map (\<lambda>k. readInt16LE buf (44 + 2 * k)) [0..<dataSize div 2]))"

section \<open>StreamServer: outbound audio (services/streamServer.js)\<close>

text \<open>
  The outbound \<open>media\<close> packet, the object handed to \<open>JSON.stringify\<close> and \<open>ws.send\<close>.
\<close>

record MediaData =
  data_samples :: "int list"
  data_bitsPerSample :: nat
  data_sampleRate :: nat
  data_channelCount :: nat
  data_numberOfFrames :: nat
  data_type :: string

record MediaPacket =
  packet_type :: string
  packet_ucid :: string
  packet_data :: MediaData

datatype readyState = CONNECTING | OPEN | CLOSING | CLOSED

text \<open>
  A WebSocket object: its state and the messages given to \<open>send\<close> so far, oldest first.
  The server holds references to such objects, here the keys of \<open>sockets\<close>: two call ids
  may map to the same connection.
\<close>

record WebSocket =
  ws_readyState :: readyState
  ws_sent :: "MediaPacket list"

record StreamServer =
  ucidToConnection :: "string \<rightharpoonup> nat"
  sockets :: "nat \<Rightarrow> WebSocket"
  lastSamples :: "(string \<rightharpoonup> int) option"

definition ws_send :: "MediaPacket \<Rightarrow> WebSocket \<Rightarrow> WebSocket" where
  "ws_send m ws = ws\<lparr>ws_sent := ws_sent ws @ [m]\<rparr>"

definition PACKET_SIZE :: nat where
  "PACKET_SIZE = 400"

text \<open>
  \<open>_applyCrossfade(ucid, samples)\<close>. The map of last samples is created on first use, after
  the test for an empty array. \<open>this._lastSamples.get(ucid) || 0\<close> is 0 for a missing entry.
  The loop \<open>for (i = 0; i < fadeLength; i++)\<close> overwrites \<open>result[i]\<close> with
  \<open>Math.round(lastSample * (1 - t) + samples[i] * t)\<close>, every operation in doubles.
\<close>

definition applyCrossfade :: "string \<Rightarrow> int list \<Rightarrow> StreamServer \<Rightarrow> int list \<times> StreamServer" where
  "applyCrossfade ucid xs srv =
     (if length xs = 0 then (xs, srv)
      else let m = (case lastSamples srv of None \<Rightarrow> Map.empty | Some m \<Rightarrow> m);
               srv1 = srv\<lparr>lastSamples := Some m\<rparr>;
               lastSample = (case m ucid of None \<Rightarrow> 0 | Some v \<Rightarrow> v)
           in if lastSample = 0 then (xs, srv1)
              else let fadeLength = min 20 (length xs);
                       result = foldl (\<lambda>result i.
                                  let t = js_div (real i) (real fadeLength)
                                  in result[i := Math_round
                                       (js_add (js_mul (real_of_int lastSample) (js_sub 1 t))
                                               (js_mul (real_of_int (xs ! i)) t))])
                                  xs [0..<fadeLength]
                   in (result, srv1))"

text \<open>
  \<open>_applyFadeoutPadding(samples, targetSize)\<close>. \<open>samples[samples.length - 1] || 0\<close> is 0
  for an empty array. The loop pushes one faded value per missing sample,
  \<open>Math.round(lastValue * (1 - t))\<close> with \<open>t = i / paddingNeeded\<close>, every operation in
  doubles.
\<close>

definition applyFadeoutPadding :: "int list \<Rightarrow> nat \<Rightarrow> int list" where
  "applyFadeoutPadding xs targetSize =
     (if length xs \<ge> targetSize then xs
      else let paddingNeeded = targetSize - length xs;
               lastValue = (if xs = [] then 0 else last xs)
           in foldl (\<lambda>result i.
                       let t = js_div (real i) (real paddingNeeded);
                           fadedValue = Math_round (js_mul (real_of_int lastValue) (js_sub 1 t))
                       in result @ [fadedValue])
                xs [0..<paddingNeeded])"

definition mkPacket :: "string \<Rightarrow> int list \<Rightarrow> MediaPacket" where
  "mkPacket ucid chunk =
     \<lparr> packet_type = ''media'', packet_ucid = ucid,
       packet_data = \<lparr> data_samples = chunk, data_bitsPerSample = 16, data_sampleRate = 8000,
                       data_channelCount = 1, data_numberOfFrames = length chunk,
                       data_type = ''data'' \<rparr> \<rparr>"

text \<open>
  The packet loop of \<open>sendAudioToOzonetel\<close>:
  \<open>for (let i = 0; i < smoothedSamples.length; i += PACKET_SIZE)\<close>, on the connection and the
  counter \<open>packetsSent\<close>.
\<close>

function sendPackets :: "string \<Rightarrow> int list \<Rightarrow> nat \<Rightarrow> WebSocket \<times> nat \<Rightarrow> WebSocket \<times> nat" where
  "sendPackets ucid smoothedSamples i (ws, packetsSent) =
     (if i < length smoothedSamples
      then let chunk0 = array_slice smoothedSamples i (i + PACKET_SIZE);
               chunk = (if length chunk0 < PACKET_SIZE
                        then applyFadeoutPadding chunk0 PACKET_SIZE else chunk0)
           in sendPackets ucid smoothedSamples (i + PACKET_SIZE)
                (if length chunk = PACKET_SIZE
                 then (ws_send (mkPacket ucid chunk) ws, packetsSent + 1)
                 else (ws, packetsSent))
      else (ws, packetsSent))"
  by pat_completeness auto
termination
  by (relation "measure (\<lambda>(ucid, smoothedSamples, i, st). length smoothedSamples - i)")
     (auto simp add: PACKET_SIZE_def)

declare sendPackets.simps [simp del]

text \<open>
  \<open>sendAudioToOzonetel(ucid, samples)\<close>: the success flag and the server afterwards. Nothing
  in the body throws on an array of numbers and an open connection, so the \<open>catch\<close> branch
  (which returns false) has no counterpart here.
\<close>

definition sendAudioToOzonetel :: "string \<Rightarrow> int list \<Rightarrow> StreamServer \<Rightarrow> bool \<times> StreamServer" where
  "sendAudioToOzonetel ucid xs srv =
     (case ucidToConnection srv ucid of
        None \<Rightarrow> (False, srv)
      | Some c \<Rightarrow>
          if ws_readyState (sockets srv c) \<noteq> OPEN then (False, srv)
          else let cleanedSamples = removeDCOffset xs;
                   (smoothedSamples, srv1) = applyCrossfade ucid cleanedSamples srv;
                   (ws, packetsSent) = sendPackets ucid smoothedSamples 0 (sockets srv1 c, 0);
                   srv2 = srv1\<lparr>sockets := (sockets srv1)(c := ws)\<rparr>;
                   srv3 = (if length smoothedSamples > 0
                           then srv2\<lparr>lastSamples :=
                                  Some ((case lastSamples srv2 of None \<Rightarrow> Map.empty | Some m \<Rightarrow> m)
                                        (ucid \<mapsto> smoothedSamples ! (length smoothedSamples - 1)))\<rparr>
                           else srv2)
               in (True, srv3))"

text \<open>
  A server for exercising the model: call A on an open connection that has sent nothing, with
  a given last-emitted sample.
\<close>

definition openServer :: "int \<Rightarrow> StreamServer" where
  "openServer L =
     \<lparr> ucidToConnection = [''A'' \<mapsto> 0],
       sockets = (\<lambda>c. \<lparr>ws_readyState = OPEN, ws_sent = []\<rparr>),
       lastSamples = Some [''A'' \<mapsto> L] \<rparr>"

text \<open>
  The chunk that the packet loop reads at offset \<open>i\<close>, after the padding step (which
  returns a full chunk as it is).
\<close>

definition paddedChunk :: "int list \<Rightarrow> nat \<Rightarrow> int list" where
  "paddedChunk sm i = applyFadeoutPadding (array_slice sm i (i + PACKET_SIZE)) PACKET_SIZE"

text \<open>
  A step that, wherever its bytes fit, stores exactly these bytes at the offset and advances
  the offset by their number.
\<close>

definition writes :: "(writer \<Rightarrow> js_error + writer) \<Rightarrow> byte list \<Rightarrow> bool" where
  "writes step bs \<longleftrightarrow>
     (\<forall>buf off. off + length bs \<le> length buf \<longrightarrow> step (buf, off) = Inr (buf_set buf off bs, off + length bs))"

text \<open>
  The 44 header bytes for N samples at 8000 Hz, 16 bits, one channel, and the header fields
  they stand for.
\<close>

definition wavHeader :: "nat \<Rightarrow> byte list" where
  "wavHeader N = concat
     [ ascii_bytes ''RIFF'', le_bytes 4 (36 + 2 * int N), ascii_bytes ''WAVE'',
       ascii_bytes ''fmt '', le_bytes 4 16, le_bytes 2 1, le_bytes 2 1, le_bytes 4 8000,
       le_bytes 4 16000, le_bytes 2 2, le_bytes 2 16, ascii_bytes ''data'', le_bytes 4 (2 * int N) ]"

definition standardConfig :: "AudioProcessor \<Rightarrow> bool" where
  "standardConfig p \<longleftrightarrow>
     sampleRate (config p) = 8000 \<and> bitsPerSample (config p) = 16 \<and> channels (config p) = 1"

definition standardHeader :: "nat \<Rightarrow> WavHeader" where
  "standardHeader N =
     \<lparr> wav_chunkId = ''RIFF'', wav_chunkSize = 36 + 2 * N, wav_format = ''WAVE'',
       wav_subchunk1Id = ''fmt '', wav_subchunk1Size = 16, wav_audioFormat = 1,
       wav_numChannels = 1, wav_sampleRate = 8000, wav_byteRate = 16000, wav_blockAlign = 2,
       wav_bitsPerSample = 16, wav_subchunk2Id = ''data'', wav_subchunk2Size = 2 * N \<rparr>"

section \<open>StreamingClient (services/streamingClient.js)\<close>

subsection \<open>Strings and the transcription filter\<close>

text \<open>
  A JavaScript string is its sequence of UTF-16 code units; \<open>length\<close> counts code units.
  \<open>trim\<close> removes white space and line terminators at both ends; the class \<open>\s\<close> of a
  regular expression is the same set.
\<close>

type_synonym jsstring = "nat list"

definition str :: "string \<Rightarrow> jsstring" where
  "str s = map of_char s"

definition isWhiteSpace :: "nat \<Rightarrow> bool" where
  "isWhiteSpace c \<longleftrightarrow>
     c \<in> {9, 10, 11, 12, 13, 32, 160, 5760, 8232, 8233, 8239, 8287, 12288, 65279}
     \<or> (8192 \<le> c \<and> c \<le> 8202)"

definition trim :: "jsstring \<Rightarrow> jsstring" where
  "trim s = rev (dropWhile isWhiteSpace (rev (dropWhile isWhiteSpace s)))"

text \<open>
  Matching with the flag \<open>i\<close> compares canonical (upper-case) code units. A code unit from
  128 on never canonicalises to one below 128, and every pattern below is ASCII, so only the
  ASCII letters need their upper case here.
\<close>

definition canonicalize :: "nat \<Rightarrow> nat" where
  "canonicalize c = (if 97 \<le> c \<and> c \<le> 122 then c - 32 else c)"

definition matches_ci :: "jsstring \<Rightarrow> string \<Rightarrow> bool" where
  "matches_ci t literal \<longleftrightarrow> map canonicalize t = map canonicalize (str literal)"

text \<open>
  The six patterns of \<open>isValidTranscription\<close>, each anchored at both ends:
  \<open>/^thank you\.?$/i\<close>, \<open>/^thanks\.?$/i\<close>, \<open>/^you$/i\<close>, \<open>/^\.{3,}$/\<close>,
  \<open>/^\s*$/\<close>, \<open>/^[\s\.,!?]+$/\<close>.
\<close>

definition hallucinations :: "(jsstring \<Rightarrow> bool) list" where
  "hallucinations =
     [ \<lambda>t. matches_ci t ''thank you'' \<or> matches_ci t ''thank you.'',
       \<lambda>t. matches_ci t ''thanks'' \<or> matches_ci t ''thanks.'',
       \<lambda>t. matches_ci t ''you'',
       \<lambda>t. length t \<ge> 3 \<and> list_all (\<lambda>c. c = 46) t,
       \<lambda>t. list_all isWhiteSpace t,
       \<lambda>t. t \<noteq> [] \<and> list_all (\<lambda>c. isWhiteSpace c \<or> c \<in> {46, 44, 33, 63}) t ]"

definition isValidTranscription :: "jsstring \<Rightarrow> bool" where
  "isValidTranscription text =
     (if text = [] \<or> length (trim text) < 2 then False
      else \<not> list_ex (\<lambda>pattern. pattern (trim text)) hallucinations)"

subsection \<open>Sessions and collaborators\<close>

record Session =
  language :: string
  voice :: string
  sessionStart :: int
  totalAudioMs :: real
  transcriptionChunks :: nat
  playbackChunks :: nat

record TranscriptionBuffer =
  partialText :: jsstring
  finalText :: jsstring
  bufferLanguage :: string

text \<open>
  The constructor's configuration after its defaults (\<open>streamingBufferMs\<close> 2000,
  \<open>silenceThreshold\<close> 1000, \<open>minSpeechDuration\<close> 1500).
\<close>

record ClientConfig =
  streamingBufferMs :: real
  clientSilenceThreshold :: real
  minSpeechDuration :: real

text \<open>
  The client's maps, keyed by call id. The two counters are not in the source: they count the
  requests made to the transcription service and to the flow engine.
\<close>

record StreamingClient =
  clientConfig :: ClientConfig
  streamingSessions :: "string \<rightharpoonup> Session"
  audioProcessors :: "string \<rightharpoonup> AudioProcessor"
  transcriptionBuffers :: "string \<rightharpoonup> TranscriptionBuffer"
  playbackQueues :: "string \<rightharpoonup> int list list"
  isTranscribing :: "string \<rightharpoonup> bool"
  isPlayingBack :: "string \<rightharpoonup> bool"
  transcribeCalls :: nat
  flowCalls :: nat

text \<open>
  The collaborators are parameters. An awaited call either resolves with a value or rejects;
  its outcome may depend on the number of earlier calls and on its arguments. A handler runs to
  its end, awaited calls included, before the next message is handled.
\<close>

datatype 'a outcome = Resolved 'a | Rejected

record Transcription =
  transcriptionText :: "jsstring option"
  transcriptionLanguage :: "string option"

record Env =
  env_kMaxLength :: nat
  env_junk :: "nat \<Rightarrow> byte"
  transcriptionsCreate :: "nat \<Rightarrow> byte list \<Rightarrow> string option \<Rightarrow> Transcription outcome"
  executeConversationalFlow :: "nat \<Rightarrow> string \<Rightarrow> jsstring \<Rightarrow> string \<Rightarrow> string \<Rightarrow> bool outcome"

definition defaultClientConfig :: ClientConfig where
  "defaultClientConfig =
     \<lparr> streamingBufferMs = 2000, clientSilenceThreshold = 1000, minSpeechDuration = 1500 \<rparr>"

definition newStreamingClient :: "ClientConfig \<Rightarrow> StreamingClient" where
  "newStreamingClient cfg =
     \<lparr> clientConfig = cfg, streamingSessions = Map.empty, audioProcessors = Map.empty,
       transcriptionBuffers = Map.empty, playbackQueues = Map.empty, isTranscribing = Map.empty,
       isPlayingBack = Map.empty, transcribeCalls = 0, flowCalls = 0 \<rparr>"

text \<open>\<open>handleStreamStart\<close>, on \<open>{ucid, language = 'en', voice = 'alloy'}\<close>.\<close>

definition handleStreamStart :: "int \<Rightarrow> string \<Rightarrow> string option \<Rightarrow> string option \<Rightarrow> StreamingClient \<Rightarrow> StreamingClient" where
  "handleStreamStart now ucid lang vc c =
     (let language = (case lang of None \<Rightarrow> ''en'' | Some l \<Rightarrow> l);
          voice = (case vc of None \<Rightarrow> ''alloy'' | Some v \<Rightarrow> v)
      in c\<lparr> streamingSessions := (streamingSessions c)(ucid \<mapsto>
               \<lparr> language = language, voice = voice, sessionStart = now, totalAudioMs = 0,
                 transcriptionChunks = 0, playbackChunks = 0 \<rparr>),
             audioProcessors := (audioProcessors c)(ucid \<mapsto>
               newAudioProcessor now
                 \<lparr> opt_minAudioDuration = Some (minSpeechDuration (clientConfig c)),
                   opt_maxAudioDuration = Some (streamingBufferMs (clientConfig c) * 2),
                   opt_silenceThreshold = Some (clientSilenceThreshold (clientConfig c)),
                   opt_silenceAmplitude = Some 300,
                   opt_sampleRate = Some 8000,
                   opt_bitsPerSample = None,
                   opt_channels = None \<rparr>),
             transcriptionBuffers := (transcriptionBuffers c)(ucid \<mapsto>
               \<lparr> partialText = [], finalText = [], bufferLanguage = language \<rparr>),
             playbackQueues := (playbackQueues c)(ucid \<mapsto> []),
             isTranscribing := (isTranscribing c)(ucid \<mapsto> False),
             isPlayingBack := (isPlayingBack c)(ucid \<mapsto> False) \<rparr>)"

text \<open>
  \<open>generateAndPlayResponse\<close>: guarded by \<open>isPlayingBack\<close>; the flag is cleared in
  \<open>finally\<close>, a rejection of the flow engine is caught.
\<close>

definition generateAndPlayResponse :: "Env \<Rightarrow> string \<Rightarrow> jsstring \<Rightarrow> StreamingClient \<Rightarrow> StreamingClient" where
  "generateAndPlayResponse env ucid userText c =
     (case streamingSessions c ucid of
        None \<Rightarrow> c
      | Some session \<Rightarrow>
          if isPlayingBack c ucid = Some True then c
          else let c1 = c\<lparr>isPlayingBack := (isPlayingBack c)(ucid \<mapsto> True),
                          flowCalls := flowCalls c + 1\<rparr>;
                   c2 = (case executeConversationalFlow env (flowCalls c) ucid userText
                                (language session) (voice session) of
                           Rejected \<Rightarrow> c1
                         | Resolved success \<Rightarrow>
                             if success
                             then c1\<lparr>streamingSessions := (streamingSessions c1)(ucid \<mapsto>
                                      session\<lparr>playbackChunks := playbackChunks session + 1\<rparr>)\<rparr>
                             else c1)
               in c2\<lparr>isPlayingBack := (isPlayingBack c2)(ucid \<mapsto> False)\<rparr>)"

text \<open>
  \<open>streamTranscription\<close>: the error it rethrows, if any, and the client afterwards.
  \<open>transcription.text?.trim() || ''\<close> and \<open>transcription.language || language\<close> fall back
  on a missing or empty value.
\<close>

definition streamTranscription :: "Env \<Rightarrow> string \<Rightarrow> byte list \<Rightarrow> string \<Rightarrow> StreamingClient \<Rightarrow> js_error option \<times> StreamingClient" where
  "streamTranscription env ucid audioBuffer lang c =
     (let c1 = c\<lparr>transcribeCalls := transcribeCalls c + 1\<rparr>
      in case transcriptionsCreate env (transcribeCalls c) audioBuffer
                (if lang = ''auto'' then None else Some lang) of
           Rejected \<Rightarrow> (Some ExternalError, c1)
         | Resolved transcription \<Rightarrow>
             let text = (case transcriptionText transcription of None \<Rightarrow> [] | Some t \<Rightarrow> trim t);
                 detectedLanguage = (case transcriptionLanguage transcription of
                                       None \<Rightarrow> lang
                                     | Some l \<Rightarrow> if l = [] then lang else l)
             in if \<not> isValidTranscription text then (None, c1)
                else let c2 = (case transcriptionBuffers c1 ucid of
                                 None \<Rightarrow> c1
                               | Some buffer \<Rightarrow>
                                   c1\<lparr>transcriptionBuffers := (transcriptionBuffers c1)(ucid \<mapsto>
                                        buffer\<lparr>finalText := finalText buffer
                                                  @ (if finalText buffer \<noteq> [] then str '' '' else [])
                                                  @ text,
                                               bufferLanguage := detectedLanguage\<rparr>)\<rparr>)
                     in if text \<noteq> [] \<and> isPlayingBack c2 ucid \<noteq> Some True
                        then (None, generateAndPlayResponse env ucid text c2)
                        else (None, c2))"

text \<open>\<open>validateAudioChunk\<close>: at least 1000 ms of audio with an RMS of at least 250.\<close>

definition validateAudioChunk :: "AudioProcessor \<Rightarrow> bool" where
  "validateAudioChunk processor =
     (if getDurationMs processor < 1000 then False
      else if rms (samples processor) < 250 then False
      else True)"

text \<open>
  \<open>processAudioChunk\<close>, first the body of its \<open>try\<close> block. Everything thrown inside
  is caught, so the body yields the client as it is when the block is left, by a \<open>return\<close>,
  by an error or at its end. The processor and the session are objects: their updates after
  the awaited transcription act on the entries of the maps as they are then. \<open>later\<close> is the
  clock after the awaited calls.
\<close>

definition processAudioChunk_try :: "Env \<Rightarrow> int \<Rightarrow> int \<Rightarrow> string \<Rightarrow> AudioProcessor \<Rightarrow> Session \<Rightarrow> StreamingClient \<Rightarrow> StreamingClient" where
  "processAudioChunk_try env now later ucid processor session c1 =
     (case toWAVBuffer (env_kMaxLength env) (env_junk env) processor of
        Inl e \<Rightarrow> c1
      | Inr None \<Rightarrow> c1
      | Inr (Some wavBuffer) \<Rightarrow>
          if \<not> validateAudioChunk processor
          then c1\<lparr>audioProcessors := (audioProcessors c1)(ucid \<mapsto> reset now processor)\<rparr>
          else (case streamTranscription env ucid wavBuffer (language session) c1 of
                  (Some e, c') \<Rightarrow> c'
                | (None, c') \<Rightarrow>
                    c'\<lparr>audioProcessors := (audioProcessors c')(ucid \<mapsto> reset later processor),
                       streamingSessions := (streamingSessions c')(ucid :=
                         map_option (\<lambda>s. s\<lparr>transcriptionChunks := transcriptionChunks s + 1\<rparr>)
                                    (streamingSessions c' ucid))\<rparr>))"

text \<open>
  The guards before \<open>try\<close>, the flag set at its start, and \<open>finally\<close>, which clears the
  flag on every way out of the block.
\<close>

definition processAudioChunk :: "Env \<Rightarrow> int \<Rightarrow> int \<Rightarrow> string \<Rightarrow> StreamingClient \<Rightarrow> StreamingClient" where
  "processAudioChunk env now later ucid c =
     (case (audioProcessors c ucid, streamingSessions c ucid, transcriptionBuffers c ucid) of
        (Some processor, Some session, Some buffer) \<Rightarrow>
          if isTranscribing c ucid = Some True then c
          else let c1 = c\<lparr>isTranscribing := (isTranscribing c)(ucid \<mapsto> True)\<rparr>;
                   c2 = processAudioChunk_try env now later ucid processor session c1
               in c2\<lparr>isTranscribing := (isTranscribing c2)(ucid \<mapsto> False)\<rparr>
      | _ \<Rightarrow> c)"

text \<open>
  An inbound \<open>media\<close> or \<open>audio_chunk\<close> message: \<open>{ucid, data: {samples, sampleRate = 8000}}\<close>.
\<close>

record AudioMessage =
  msg_ucid :: string
  msg_samples :: "int list"
  msg_sampleRate :: "real option"

text \<open>
  \<open>handleAudioChunk\<close>. The source divides by \<open>sampleRate\<close>; a rate of 0 (which gives
  Infinity there) is outside this model.
\<close>

definition handleAudioChunk :: "Env \<Rightarrow> int \<Rightarrow> int \<Rightarrow> AudioMessage \<Rightarrow> StreamingClient \<Rightarrow> StreamingClient" where
  "handleAudioChunk env now later message c =
     (let ucid = msg_ucid message
      in case (audioProcessors c ucid, streamingSessions c ucid) of
           (Some processor, Some session) \<Rightarrow>
             let xs = msg_samples message;
                 rate = (case msg_sampleRate message of None \<Rightarrow> 8000 | Some r \<Rightarrow> r)
             in if length xs = 0 then c
                else let processor' = addSamples now xs processor;
                         session' = session\<lparr>totalAudioMs := totalAudioMs session
                                              + (real (length xs) / rate) * 1000\<rparr>;
                         c1 = c\<lparr>audioProcessors := (audioProcessors c)(ucid \<mapsto> processor'),
                                streamingSessions := (streamingSessions c)(ucid \<mapsto> session')\<rparr>
                     in if shouldSendToAPI now processor' \<and> isTranscribing c1 ucid \<noteq> Some True
                        then processAudioChunk env now later ucid c1
                        else c1
         | _ \<Rightarrow> c)"

text \<open>\<open>handleControl\<close>, on \<open>{ucid, command, params}\<close>.\<close>

datatype control = SetLanguage string | SetVoice string | PauseTranscription
  | ResumeTranscription | UnknownCommand

definition handleControl :: "string \<Rightarrow> control \<Rightarrow> StreamingClient \<Rightarrow> StreamingClient" where
  "handleControl ucid command c =
     (case command of
        SetLanguage l \<Rightarrow>
          (case streamingSessions c ucid of
             None \<Rightarrow> c
           | Some session \<Rightarrow>
               c\<lparr>streamingSessions := (streamingSessions c)(ucid \<mapsto> session\<lparr>language := l\<rparr>),
                 transcriptionBuffers := (transcriptionBuffers c)(ucid :=
                   map_option (\<lambda>b. b\<lparr>bufferLanguage := l\<rparr>) (transcriptionBuffers c ucid))\<rparr>)
      | SetVoice v \<Rightarrow>
          (case streamingSessions c ucid of
             None \<Rightarrow> c
           | Some session \<Rightarrow>
               c\<lparr>streamingSessions := (streamingSessions c)(ucid \<mapsto> session\<lparr>voice := v\<rparr>)\<rparr>)
      | PauseTranscription \<Rightarrow> c\<lparr>isTranscribing := (isTranscribing c)(ucid \<mapsto> True)\<rparr>
      | ResumeTranscription \<Rightarrow> c\<lparr>isTranscribing := (isTranscribing c)(ucid \<mapsto> False)\<rparr>
      | UnknownCommand \<Rightarrow> c)"

text \<open>\<open>cleanupSession\<close>, called by \<open>handleStreamEnd\<close>.\<close>

definition cleanupSession :: "string \<Rightarrow> StreamingClient \<Rightarrow> StreamingClient" where
  "cleanupSession ucid c =
     c\<lparr> audioProcessors := (audioProcessors c)(ucid := None),
       streamingSessions := (streamingSessions c)(ucid := None),
       transcriptionBuffers := (transcriptionBuffers c)(ucid := None),
       playbackQueues := (playbackQueues c)(ucid := None),
       isTranscribing := (isTranscribing c)(ucid := None),
       isPlayingBack := (isPlayingBack c)(ucid := None) \<rparr>"

text \<open>
  The buffering part of \<open>handleAudioChunk\<close> alone: what the handler does to a known call with
  a non-empty packet before it looks at the flush condition.
\<close>

definition bufferChunk :: "int \<Rightarrow> AudioMessage \<Rightarrow> StreamingClient \<Rightarrow> StreamingClient" where
  "bufferChunk now message c =
     (case (audioProcessors c (msg_ucid message), streamingSessions c (msg_ucid message)) of
        (Some processor, Some session) \<Rightarrow>
          if length (msg_samples message) = 0 then c
          else c\<lparr>audioProcessors := (audioProcessors c)(msg_ucid message \<mapsto>
                     addSamples now (msg_samples message) processor),
                 streamingSessions := (streamingSessions c)(msg_ucid message \<mapsto>
                     session\<lparr>totalAudioMs := totalAudioMs session
                        + (real (length (msg_samples message))
                           / (case msg_sampleRate message of None \<Rightarrow> 8000 | Some r \<Rightarrow> r)) * 1000\<rparr>)\<rparr>
      | _ \<Rightarrow> c)"

text \<open>
  No call loses its processor, its session or its transcription buffer from one client state
  to the next.
\<close>

definition keeps :: "StreamingClient \<Rightarrow> StreamingClient \<Rightarrow> bool" where
  "keeps c c' \<longleftrightarrow>
     (\<forall>u. audioProcessors c u \<noteq> None \<longrightarrow> audioProcessors c' u \<noteq> None)
     \<and> (\<forall>u. streamingSessions c u \<noteq> None \<longrightarrow> streamingSessions c' u \<noteq> None)
     \<and> (\<forall>u. transcriptionBuffers c u \<noteq> None \<longrightarrow> transcriptionBuffers c' u \<noteq> None)"

text \<open>
  Collaborators and a call for exercising the model: a transcription service that always
  resolves with a given text, one that always rejects, the client after \<open>stream_start\<close> for
  call A, and two packets of loud audio (four seconds, then one sample).
\<close>

definition resolvingEnv :: "jsstring \<Rightarrow> Env" where
  "resolvingEnv t =
     \<lparr> env_kMaxLength = 4294967296, env_junk = zeroMemory,
       transcriptionsCreate = (\<lambda>n wav lang. Resolved \<lparr>transcriptionText = Some t, transcriptionLanguage = None\<rparr>),
       executeConversationalFlow = (\<lambda>n ucid userText lang vc. Resolved True) \<rparr>"

definition rejectingEnv :: Env where
  "rejectingEnv =
     \<lparr> env_kMaxLength = 4294967296, env_junk = zeroMemory,
       transcriptionsCreate = (\<lambda>n wav lang. Rejected),
       executeConversationalFlow = (\<lambda>n ucid userText lang vc. Rejected) \<rparr>"

definition startedClient :: StreamingClient where
  "startedClient = handleStreamStart 0 ''A'' None None (newStreamingClient defaultClientConfig)"

definition loudChunk :: AudioMessage where
  "loudChunk = \<lparr> msg_ucid = ''A'', msg_samples = replicate 32000 1000, msg_sampleRate = None \<rparr>"

definition nextChunk :: AudioMessage where
  "nextChunk = \<lparr> msg_ucid = ''A'', msg_samples = [1000], msg_sampleRate = None \<rparr>"

text \<open>The processor of call A after the first of the two packets.\<close>

definition loadedProcessor :: AudioProcessor where
  "loadedProcessor =
     \<lparr> config = \<lparr> minAudioDuration = 1500, maxAudioDuration = 4000, silenceThreshold = 1000,
                  silenceAmplitude = 300, sampleRate = 8000, bitsPerSample = 16, channels = 1 \<rparr>,
       samples = replicate 32000 1000, totalSamples = 32000, startTime = 0, lastAudioTime = 0,
       consecutiveSilentPackets = 0 \<rparr>"

section \<open>StreamClient: inbound media (routes/designer.js)\<close>












section \<open>Lemmas\<close>

lemma foldl_plus_sum_list: "foldl (\<lambda>sum val. sum + val) a xs = a + sum_list (xs :: int list)"
  by (induction xs arbitrary: a) simp_all

lemma Math_round_shift: "Math_round (real_of_int k + y) = k + Math_round y"
  unfolding Math_round_def by linarith

lemma Math_round_error: "real_of_int (Math_round y) - y \<le> 1 / 2" "- (1 / 2) < real_of_int (Math_round y) - y"
  unfolding Math_round_def by linarith+

lemma removeDCOffset_shift:
  assumes "xs \<noteq> []"
  shows "removeDCOffset xs = map (\<lambda>s. s + Math_round (- mean xs)) xs"
proof -
  have "Math_round (real_of_int s - mean xs) = s + Math_round (- mean xs)" for s
    using Math_round_shift [of s "- mean xs"] by simp
  with assms show ?thesis
    by (simp add: removeDCOffset_def mean_def foldl_plus_sum_list)
qed

lemma sum_list_map_add_const:
  "sum_list (map (\<lambda>s. s + k) xs) = sum_list xs + int (length xs) * (k :: int)"
  by (induction xs) (simp_all add: algebra_simps)

lemma mean_map_add_const:
  assumes "xs \<noteq> []"
  shows "mean (map (\<lambda>s. s + k) xs) = mean xs + real_of_int k"
proof -
  from assms have n: "real (length xs) \<noteq> 0" by simp
  have "mean (map (\<lambda>s. s + k) xs)
      = (real_of_int (sum_list xs) + real (length xs) * real_of_int k) / real (length xs)"
    by (simp add: mean_def sum_list_map_add_const)
  also have "\<dots> = mean xs + real_of_int k"
    using n by (simp add: mean_def add_divide_distrib)
  finally show ?thesis .
qed

subsection \<open>Outbound audio\<close>


lemma foldl_update_upt:
  "n \<le> length xs \<Longrightarrow>
   length (foldl (\<lambda>r i. r[i := f i]) xs [0..<n]) = length xs
   \<and> (\<forall>j < length xs. foldl (\<lambda>r i. r[i := f i]) xs [0..<n] ! j = (if j < n then f j else xs ! j))"
proof (induction n)
  case 0
  then show ?case by simp
next
  case (Suc n)
  then show ?case by (auto simp add: nth_list_update less_Suc_eq)
qed

lemma foldl_snoc_upt:
  "foldl (\<lambda>r i. r @ [g i]) xs [0..<n] = xs @ map g [0..<n]"
  by (induction n) simp_all

lemma applyFadeoutPadding_eq:
  assumes "xs \<noteq> []" "length xs < targetSize"
  shows "applyFadeoutPadding xs targetSize =
     xs @ map (\<lambda>i. Math_round (js_mul (real_of_int (last xs))
                                      (js_sub 1 (js_div (real i) (real (targetSize - length xs))))))
            [0..<targetSize - length xs]"
  using assms by (simp add: applyFadeoutPadding_def Let_def foldl_snoc_upt)

lemma length_applyFadeoutPadding:
  "length xs \<le> targetSize \<Longrightarrow> length (applyFadeoutPadding xs targetSize) = targetSize"
  by (simp add: applyFadeoutPadding_def Let_def foldl_snoc_upt)

lemma length_paddedChunk: "length (paddedChunk sm i) = PACKET_SIZE"
  by (simp add: paddedChunk_def array_slice_def length_applyFadeoutPadding)

lemma packet_count_step:
  assumes "i < N"
  shows "(N - i + 399) div 400 = Suc ((N - (i + 400) + 399) div (400::nat))"
proof (cases "i + 400 \<le> N")
  case True
  then have "N - i + 399 = (N - (i + 400) + 399) + 400" by simp
  then show ?thesis by (simp only: div_add_self2)
next
  case False
  with assms have "N - (i + 400) = 0" "0 < N - i" "N - i < 400" by simp_all
  then have "(N - i + 399) div 400 = 1" by (simp add: div_nat_eqI)
  then show ?thesis using \<open>N - (i + 400) = 0\<close> by simp
qed

lemma sendPackets_eq:
  "sendPackets ucid sm i (ws, k) =
     (ws\<lparr>ws_sent := ws_sent ws @ map (\<lambda>j. mkPacket ucid (paddedChunk sm (i + PACKET_SIZE * j)))
                                   [0..<(length sm - i + 399) div 400]\<rparr>,
      k + (length sm - i + 399) div 400)"
proof (induction ucid sm i "(ws, k)" arbitrary: ws k rule: sendPackets.induct)
  case (1 ucid sm i ws k)
  show ?case
  proof (cases "i < length sm")
    case False
    then show ?thesis by (subst sendPackets.simps) simp
  next
    case True
    let ?chunk0 = "array_slice sm i (i + PACKET_SIZE)"
    have pc: "(if length ?chunk0 < PACKET_SIZE then applyFadeoutPadding ?chunk0 PACKET_SIZE else ?chunk0)
               = paddedChunk sm i"
      by (simp add: paddedChunk_def applyFadeoutPadding_def)
    have step: "sendPackets ucid sm i (ws, k)
        = sendPackets ucid sm (i + PACKET_SIZE) (ws_send (mkPacket ucid (paddedChunk sm i)) ws, k + 1)"
      using True by (subst sendPackets.simps) (simp add: pc Let_def length_paddedChunk)
    have ih: "sendPackets ucid sm (i + PACKET_SIZE) (ws_send (mkPacket ucid (paddedChunk sm i)) ws, k + 1)
        = ((ws_send (mkPacket ucid (paddedChunk sm i)) ws)
             \<lparr>ws_sent := ws_sent (ws_send (mkPacket ucid (paddedChunk sm i)) ws)
                 @ map (\<lambda>j. mkPacket ucid (paddedChunk sm (i + PACKET_SIZE + PACKET_SIZE * j)))
                       [0..<(length sm - (i + PACKET_SIZE) + 399) div 400]\<rparr>,
           k + 1 + (length sm - (i + PACKET_SIZE) + 399) div 400)"
      using "1" [OF True refl refl, of "ws_send (mkPacket ucid (paddedChunk sm i)) ws" "k + 1"]
      by (simp add: pc length_paddedChunk)
    have cnt: "(length sm - i + 399) div 400 = Suc ((length sm - (i + PACKET_SIZE) + 399) div 400)"
      using packet_count_step [OF True] by (simp add: PACKET_SIZE_def)
    show ?thesis
      unfolding step ih cnt
      by (simp add: ws_send_def map_upt_Suc add.assoc del: upt_Suc)
  qed
qed

lemma applyCrossfade_nth:
  assumes "lastSamples srv = Some m" "m ucid = Some L" "L \<noteq> 0" "i < length S"
  defines "n \<equiv> min 20 (length S)"
  defines "f \<equiv> \<lambda>i. Math_round (js_add (js_mul (real_of_int L) (js_sub 1 (js_div (real i) (real n))))
                                      (js_mul (real_of_int (S ! i)) (js_div (real i) (real n))))"
  shows "length (fst (applyCrossfade ucid S srv)) = length S"
    and "fst (applyCrossfade ucid S srv) ! i = (if i < n then f i else S ! i)"
proof -
  have eq: "fst (applyCrossfade ucid S srv) = foldl (\<lambda>r i. r[i := f i]) S [0..<n]"
    unfolding n_def f_def using assms(1-4) by (auto simp add: applyCrossfade_def Let_def)
  have "n \<le> length S" by (simp add: n_def)
  from foldl_update_upt [OF this, of f] assms(4) eq
  show "length (fst (applyCrossfade ucid S srv)) = length S"
    and "fst (applyCrossfade ucid S srv) ! i = (if i < n then f i else S ! i)"
    by simp_all
qed

lemma applyCrossfade_zero:
  assumes "(case lastSamples srv of None \<Rightarrow> None | Some m \<Rightarrow> m ucid) = None
         \<or> (case lastSamples srv of None \<Rightarrow> None | Some m \<Rightarrow> m ucid) = Some 0"
  shows "fst (applyCrossfade ucid S srv) = S"
  using assms by (auto simp add: applyCrossfade_def Let_def split: option.splits)

lemma length_applyCrossfade: "length (fst (applyCrossfade ucid S srv)) = length S"
proof -
  have "length (foldl (\<lambda>r i. r[i := f r i]) S is) = length S" for f and "is" :: "nat list"
    by (induction "is" arbitrary: S) simp_all
  then show ?thesis
    by (simp add: applyCrossfade_def Let_def split: option.splits)
qed

lemma length_removeDCOffset: "length (removeDCOffset S) = length S"
  by (simp add: removeDCOffset_def Let_def)

lemma applyCrossfade_frame:
  "sockets (snd (applyCrossfade ucid S srv)) = sockets srv"
  "ucidToConnection (snd (applyCrossfade ucid S srv)) = ucidToConnection srv"
  by (simp_all add: applyCrossfade_def Let_def)

lemma ceiling_packets: "\<lceil>real N / 400\<rceil> = int ((N + 399) div 400)"
proof (rule ceiling_unique)
  define k where "k = (N + 399) div 400"
  define r where "r = (N + 399) mod 400"
  have "k * 400 + r = N + 399" unfolding k_def r_def by (rule div_mult_mod_eq)
  then have "real (k * 400 + r) = real (N + 399)" by (rule arg_cong)
  then have e: "real k * 400 + real r = real N + 399" by simp
  have "r < 400" unfolding r_def by simp
  then have "r \<le> 399" by simp
  then have "real r \<le> 399" by (metis of_nat_le_iff of_nat_numeral)
  with e have "real k * 400 < real N + 400" "real N \<le> real k * 400" by linarith+
  then show "real_of_int (int ((N + 399) div 400)) - 1 < real N / 400"
    and "real N / 400 \<le> real_of_int (int ((N + 399) div 400))"
    unfolding k_def [symmetric] by (simp_all add: field_simps)
qed

lemma last_paddedChunk:
  assumes "N = length sm" "N mod 400 \<noteq> 0"
  shows "paddedChunk sm (PACKET_SIZE * (N div 400)) =
           drop (N - N mod 400) sm
           @ map (\<lambda>i. Math_round (js_mul (real_of_int (last sm))
                                           (js_sub 1 (js_div (real i) (real (400 - N mod 400))))))
                 [0..<400 - N mod 400]"
proof -
  let ?o = "400 * (N div 400)"
  have "N div 400 * 400 + N mod 400 = N" by (rule div_mult_mod_eq)
  then have o: "?o = N - N mod 400" by linarith
  have len: "length (drop ?o sm) = N mod 400" using assms(1) o by simp
  have lt: "N mod 400 < 400" by simp
  have ne: "drop ?o sm \<noteq> []" using len assms(2) by auto
  have sl: "array_slice sm ?o (?o + 400) = drop ?o sm" using len by (simp add: array_slice_def)
  have la: "last (drop ?o sm) = last sm" using ne by (simp add: last_drop)
  show ?thesis
    unfolding paddedChunk_def PACKET_SIZE_def sl
    using applyFadeoutPadding_eq [OF ne, of 400] len la o by simp
qed

lemma shaped_empty_iff: "fst (applyCrossfade ucid (removeDCOffset xs) srv) = [] \<longleftrightarrow> xs = []"
  using length_applyCrossfade [of ucid "removeDCOffset xs" srv] length_removeDCOffset [of xs]
  by (metis length_0_conv)

lemma sendAudio_sent:
  assumes "ucidToConnection srv ucid = Some c" "ws_readyState (sockets srv c) = OPEN"
  shows "fst (sendAudioToOzonetel ucid xs srv)"
    and "ws_sent (sockets (snd (sendAudioToOzonetel ucid xs srv)) c) =
      ws_sent (sockets srv c)
      @ map (\<lambda>j. mkPacket ucid (paddedChunk (fst (applyCrossfade ucid (removeDCOffset xs) srv)) (PACKET_SIZE * j)))
            [0..<(length xs + 399) div 400]"
  using assms
  by (simp_all add: sendAudioToOzonetel_def Let_def split_beta sendPackets_eq applyCrossfade_frame
        length_applyCrossfade length_removeDCOffset shaped_empty_iff)


subsection \<open>WAV encoding\<close>

lemma buf_set_append:
  assumes "length pre = off" "length bytes \<le> length rest"
  shows "buf_set (pre @ rest) off bytes = pre @ bytes @ drop (length bytes) rest"
  using assms by (simp add: buf_set_def)

lemma length_le_bytes: "length (le_bytes n v) = n"
  by (simp add: le_bytes_def)

lemma length_ascii_bytes: "length (ascii_bytes s) = length s"
  by (simp add: ascii_bytes_def)

lemma writes_Int16: "- 32768 \<le> v \<Longrightarrow> v \<le> 32767 \<Longrightarrow> writes (writeInt16LE v) (le_bytes 2 v)"
  by (simp add: writes_def writeInt16LE_def length_le_bytes)

lemma writes_UInt16: "0 \<le> v \<Longrightarrow> v \<le> 65535 \<Longrightarrow> writes (writeUInt16LE v) (le_bytes 2 \<lfloor>v\<rfloor>)"
  by (simp add: writes_def writeUInt16LE_def length_le_bytes)

lemma writes_UInt32: "0 \<le> v \<Longrightarrow> v \<le> 4294967295 \<Longrightarrow> writes (writeUInt32LE v) (le_bytes 4 \<lfloor>v\<rfloor>)"
  by (simp add: writes_def writeUInt32LE_def length_le_bytes)

lemma writes_string: "length lit = 4 \<Longrightarrow> writes (buffer_write lit) (ascii_bytes lit)"
  by (simp add: writes_def buffer_write_def length_ascii_bytes)

lemma run_writes:
  assumes "list_all2 writes steps bss" "length pre = off" "length (concat bss) \<le> length rest"
  shows "run steps (pre @ rest, off)
       = Inr (pre @ concat bss @ drop (length (concat bss)) rest, off + length (concat bss))"
  using assms
proof (induction steps bss arbitrary: pre rest off rule: list_all2_induct)
  case Nil
  then show ?case by simp
next
  case (Cons step steps bs bss)
  from Cons.prems have fit: "length bs \<le> length rest" by simp
  with Cons.hyps(1) Cons.prems(1)
  have step: "step (pre @ rest, off) = Inr (pre @ bs @ drop (length bs) rest, off + length bs)"
    by (simp add: writes_def buf_set_append)
  have "run steps ((pre @ bs) @ drop (length bs) rest, off + length bs)
      = Inr ((pre @ bs) @ concat bss @ drop (length (concat bss)) (drop (length bs) rest),
             off + length bs + length (concat bss))"
    using Cons.prems by (intro Cons.IH) simp_all
  with step show ?case by (simp add: add.commute add.assoc)
qed

lemma length_concat_le_bytes: "length (concat (map (le_bytes 2) xs)) = 2 * length xs"
  by (induction xs) (simp_all add: length_le_bytes)

lemma list_all2_samples:
  "\<forall>v \<in> set xs. - 32768 \<le> v \<and> v \<le> 32767 \<Longrightarrow> list_all2 writes (map writeInt16LE xs) (map (le_bytes 2) xs)"
  by (induction xs) (simp_all add: writes_Int16)

lemma length_wavHeader: "length (wavHeader N) = 44"
  by (simp add: wavHeader_def length_le_bytes length_ascii_bytes)

lemma toWAVBuffer_standard:
  assumes cfg: "standardConfig p"
    and ne: "samples p \<noteq> []"
    and rng: "\<forall>v \<in> set (samples p). - 32768 \<le> v \<and> v \<le> 32767"
    and fit32: "36 + 2 * length (samples p) \<le> 4294967295"
    and fitK: "44 + 2 * length (samples p) \<le> kMaxLength"
  shows "toWAVBuffer kMaxLength junk p
       = Inr (Some (wavHeader (length (samples p)) @ concat (map (le_bytes 2) (samples p))))"
proof -
  define N where "N = length (samples p)"
  define buffer where "buffer = map junk [0..<44 + 2 * N]"
  have fs: "44 + real N * (16 / 8) = real (44 + 2 * N)" by simp
  have fl: "nat \<lfloor>44 + real N * (16 / 8)\<rfloor> = 44 + 2 * N"
    unfolding fs by (simp only: floor_of_nat nat_int)
  have "real (44 + 2 * N) \<le> real kMaxLength"
    using fitK unfolding N_def by (rule of_nat_mono)
  then have alloc: "allocUnsafe kMaxLength junk (44 + real N * (16 / 8)) = Inr buffer"
    unfolding allocUnsafe_def buffer_def fl unfolding fs by simp
  let ?steps = "[ buffer_write ''RIFF'', writeUInt32LE (44 + real N * (16 / 8) - 8),
      buffer_write ''WAVE'', buffer_write ''fmt '', writeUInt32LE 16, writeUInt16LE 1,
      writeUInt16LE 1, writeUInt32LE 8000, writeUInt32LE (8000 * 1 * (16 / 8)),
      writeUInt16LE (1 * (16 / 8)), writeUInt16LE 16, buffer_write ''data'',
      writeUInt32LE (real N * (16 / 8)) ]"
  let ?chunks = "[ ascii_bytes ''RIFF'', le_bytes 4 (36 + 2 * int N), ascii_bytes ''WAVE'',
       ascii_bytes ''fmt '', le_bytes 4 16, le_bytes 2 1, le_bytes 2 1, le_bytes 4 8000,
       le_bytes 4 16000, le_bytes 2 2, le_bytes 2 16, ascii_bytes ''data'', le_bytes 4 (2 * int N) ]"
  have f1: "\<lfloor>44 + real N * (16 / 8) - 8\<rfloor> = 36 + 2 * int N"
    by (simp add: floor_eq_iff)
  have f2: "\<lfloor>real N * (16 / 8)\<rfloor> = 2 * int N"
    by (simp add: floor_eq_iff)
  have "2 * N \<le> 4294967259" using fit32 unfolding N_def by simp
  then have "real (2 * N) \<le> real 4294967259" by (rule of_nat_mono)
  then have b: "real N * 2 \<le> 4294967259" by simp
  have w2: "writes (writeUInt32LE (44 + real N * (16 / 8) - 8)) (le_bytes 4 (36 + 2 * int N))"
    using writes_UInt32 [of "44 + real N * (16 / 8) - 8"] b unfolding f1 by simp
  have w13: "writes (writeUInt32LE (real N * (16 / 8))) (le_bytes 4 (2 * int N))"
    using writes_UInt32 [of "real N * (16 / 8)"] b unfolding f2 by simp
  have hdr: "list_all2 writes ?steps ?chunks"
    using w2 w13 writes_UInt32 [of 16] writes_UInt16 [of 1] writes_UInt32 [of 8000]
      writes_UInt32 [of "8000 * 1 * (16 / 8)"] writes_UInt16 [of "1 * (16 / 8)"] writes_UInt16 [of 16]
    by (simp add: writes_string)
  have all: "list_all2 writes (?steps @ map writeInt16LE (samples p)) (?chunks @ map (le_bytes 2) (samples p))"
    using hdr list_all2_samples [OF rng] by (rule list_all2_appendI)
  define steps where "steps = ?steps @ map writeInt16LE (samples p)"
  define out where "out = wavHeader N @ concat (map (le_bytes 2) (samples p))"
  have cc: "concat (?chunks @ map (le_bytes 2) (samples p)) = out"
    by (simp add: wavHeader_def out_def)
  have len: "length out = 44 + 2 * N"
    by (simp add: out_def length_wavHeader length_concat_le_bytes N_def)
  have lb: "length buffer = 44 + 2 * N" by (simp add: buffer_def)
  have "run steps ([] @ buffer, 0)
        = Inr ([] @ concat (?chunks @ map (le_bytes 2) (samples p))
                 @ drop (length (concat (?chunks @ map (le_bytes 2) (samples p)))) buffer,
               0 + length (concat (?chunks @ map (le_bytes 2) (samples p))))"
    using all unfolding steps_def by (rule run_writes) (simp_all only: cc len lb list.size)
  then have r: "run steps (buffer, 0) = Inr (out, 44 + 2 * N)"
    unfolding cc len using lb by simp
  have "toWAVBuffer kMaxLength junk p
      = (case allocUnsafe kMaxLength junk (44 + real N * (16 / 8)) of
           Inl e \<Rightarrow> Inl e
         | Inr buffer \<Rightarrow> (case run steps (buffer, 0) of Inl e \<Rightarrow> Inl e
                                                     | Inr (buffer', offset) \<Rightarrow> Inr (Some buffer')))"
  proof -
    from cfg have c: "sampleRate (config p) = 8000" "bitsPerSample (config p) = 16" "channels (config p) = 1"
      by (simp_all add: standardConfig_def)
    from ne have "length (samples p) \<noteq> 0" by simp
    then show ?thesis
      unfolding toWAVBuffer_def Let_def c steps_def N_def by (simp only: if_False)
  qed
  then show ?thesis
    unfolding alloc using r by (simp add: out_def N_def)
qed

lemma le_bytes_Suc: "le_bytes (Suc n) v = word_of_int v # le_bytes n (v div 256)"
proof -
  have "v div 256 ^ Suc k = v div 256 div 256 ^ k" for k
    by (simp add: zdiv_zmult2_eq)
  then show ?thesis
    unfolding le_bytes_def by (simp add: map_upt_Suc del: upt_Suc power_Suc)
qed

lemma le_decode_Cons: "le_decode (b # bs) = unat b + 256 * le_decode bs"
  by (simp add: le_decode_def)

lemma unat_byte_of_int: "unat (word_of_int v :: byte) = nat (v mod 256)"
  by (simp add: unsigned_of_int take_bit_eq_mod)

lemma le_decode_le_bytes: "le_decode (le_bytes n v) = nat (v mod 256 ^ n)"
proof (induction n arbitrary: v)
  case 0
  then show ?case by (simp add: le_bytes_def le_decode_def)
next
  case (Suc n)
  have "v mod 256 ^ Suc n = 256 * (v div 256 mod 256 ^ n) + v mod 256"
    by (simp add: zmod_zmult2_eq)
  moreover have "0 \<le> v mod 256" "0 \<le> v div 256 mod 256 ^ n" by simp_all
  ultimately have "nat (v mod 256 ^ Suc n) = nat (v mod 256) + 256 * nat (v div 256 mod 256 ^ n)"
    by (simp add: nat_add_distrib nat_mult_distrib)
  then show ?case
    by (simp only: le_bytes_Suc le_decode_Cons unat_byte_of_int Suc.IH)
qed

lemma array_slice_field:
  "length pre = off \<Longrightarrow> length bs = n \<Longrightarrow> array_slice (pre @ bs @ rest) off (off + n) = bs"
  by (simp add: array_slice_def)

lemma drop_concat_le_bytes:
  "drop (2 * k) (concat (map (le_bytes 2) xs)) = concat (map (le_bytes 2) (drop k xs))"
proof (induction xs arbitrary: k)
  case Nil
  then show ?case by simp
next
  case (Cons x xs)
  show ?case
  proof (cases k)
    case 0
    then show ?thesis by simp
  next
    case (Suc j)
    have "2 * Suc j - 2 = 2 * j" by simp
    with Cons.IH [of j] Suc show ?thesis by (simp add: length_le_bytes)
  qed
qed

lemma sample_slice:
  assumes "k < length xs" "length hdr = 44"
  shows "array_slice (hdr @ concat (map (le_bytes 2) xs)) (44 + 2 * k) (44 + 2 * k + 2) = le_bytes 2 (xs ! k)"
proof -
  have "drop k xs = xs ! k # drop (Suc k) xs"
    using assms(1) by (simp add: Cons_nth_drop_Suc)
  then have "take 2 (drop (2 * k) (concat (map (le_bytes 2) xs))) = le_bytes 2 (xs ! k)"
    by (simp add: drop_concat_le_bytes length_le_bytes)
  then show ?thesis using assms(2) by (simp add: array_slice_def)
qed

lemma int16_roundtrip:
  assumes "- 32768 \<le> v" "v \<le> 32767"
  shows "(let u = nat (v mod 256 ^ 2) in if u \<ge> 32768 then int u - 65536 else int u) = v"
proof (cases "0 \<le> v")
  case True
  with assms have "v mod 65536 = v" by simp
  with True assms show ?thesis by (simp add: Let_def)
next
  case False
  with assms have "v mod 65536 = v + 65536"
    by (smt (verit) mod_add_self2 mod_pos_pos_trivial)
  with False assms show ?thesis by (simp add: Let_def)
qed

lemma decode_samples:
  assumes "length hdr = 44" "\<forall>v \<in> set xs. - 32768 \<le> v \<and> v \<le> 32767"
  shows "map (\<lambda>k. readInt16LE (hdr @ concat (map (le_bytes 2) xs)) (44 + 2 * k)) [0..<length xs] = xs"
proof (rule nth_equalityI)
  show "length (map (\<lambda>k. readInt16LE (hdr @ concat (map (le_bytes 2) xs)) (44 + 2 * k)) [0..<length xs]) = length xs"
    by simp
next
  fix i assume "i < length (map (\<lambda>k. readInt16LE (hdr @ concat (map (le_bytes 2) xs)) (44 + 2 * k)) [0..<length xs])"
  then have i: "i < length xs" by simp
  then have r: "- 32768 \<le> xs ! i" "xs ! i \<le> 32767" using assms(2) by simp_all
  have "readInt16LE (hdr @ concat (map (le_bytes 2) xs)) (44 + 2 * i) = xs ! i"
    unfolding readInt16LE_def readUIntLE_def sample_slice [OF i assms(1)] le_decode_le_bytes
    using int16_roundtrip [OF r] .
  with i show "map (\<lambda>k. readInt16LE (hdr @ concat (map (le_bytes 2) xs)) (44 + 2 * k)) [0..<length xs] ! i = xs ! i"
    by simp
qed

lemma ascii_roundtrip: "map (\<lambda>b. char_of (unat b)) (ascii_bytes lit) = lit"
proof -
  have "char_of (unat (word_of_nat (of_char c) :: byte)) = c" for c
    by (simp add: unat_of_nat)
  then show ?thesis by (simp add: ascii_bytes_def comp_def)
qed

lemma decode_header:
  assumes "36 + 2 * N \<le> 4294967295" "length data = 2 * N"
  shows "readAscii (wavHeader N @ data) 0 4 = ''RIFF''"
    and "readUIntLE (wavHeader N @ data) 4 4 = 36 + 2 * N"
    and "readAscii (wavHeader N @ data) 8 4 = ''WAVE''"
    and "readAscii (wavHeader N @ data) 12 4 = ''fmt ''"
    and "readUIntLE (wavHeader N @ data) 16 4 = 16"
    and "readUIntLE (wavHeader N @ data) 20 2 = 1"
    and "readUIntLE (wavHeader N @ data) 22 2 = 1"
    and "readUIntLE (wavHeader N @ data) 24 4 = 8000"
    and "readUIntLE (wavHeader N @ data) 28 4 = 16000"
    and "readUIntLE (wavHeader N @ data) 32 2 = 2"
    and "readUIntLE (wavHeader N @ data) 34 2 = 16"
    and "readAscii (wavHeader N @ data) 36 4 = ''data''"
    and "readUIntLE (wavHeader N @ data) 40 4 = 2 * N"
proof -
  have m1: "(36 + 2 * int N) mod 256 ^ 4 = 36 + 2 * int N"
    using assms(1) by (intro mod_pos_pos_trivial) simp_all
  have m2: "(2 * int N) mod 256 ^ 4 = 2 * int N"
    using assms(1) by (intro mod_pos_pos_trivial) simp_all
  have n1: "nat (36 + 2 * int N) = 36 + 2 * N" "nat (2 * int N) = 2 * N"
    by (simp_all add: nat_add_distrib nat_mult_distrib)
  note [simp] = length_le_bytes length_ascii_bytes
  show "readAscii (wavHeader N @ data) 0 4 = ''RIFF''"
    unfolding readAscii_def wavHeader_def array_slice_def
    by (simp add: ascii_roundtrip)
  show "readUIntLE (wavHeader N @ data) 4 4 = 36 + 2 * N"
    unfolding readUIntLE_def wavHeader_def array_slice_def
    by (simp add: le_decode_le_bytes m1 n1 del: power_numeral)
  show "readAscii (wavHeader N @ data) 8 4 = ''WAVE''"
    unfolding readAscii_def wavHeader_def array_slice_def
    by (simp add: ascii_roundtrip)
  show "readAscii (wavHeader N @ data) 12 4 = ''fmt ''"
    unfolding readAscii_def wavHeader_def array_slice_def
    by (simp add: ascii_roundtrip)
  show "readUIntLE (wavHeader N @ data) 16 4 = 16"
    unfolding readUIntLE_def wavHeader_def array_slice_def
    by (simp add: le_decode_le_bytes)
  show "readUIntLE (wavHeader N @ data) 20 2 = 1"
    unfolding readUIntLE_def wavHeader_def array_slice_def
    by (simp add: le_decode_le_bytes)
  show "readUIntLE (wavHeader N @ data) 22 2 = 1"
    unfolding readUIntLE_def wavHeader_def array_slice_def
    by (simp add: le_decode_le_bytes)
  show "readUIntLE (wavHeader N @ data) 24 4 = 8000"
    unfolding readUIntLE_def wavHeader_def array_slice_def
    by (simp add: le_decode_le_bytes)
  show "readUIntLE (wavHeader N @ data) 28 4 = 16000"
    unfolding readUIntLE_def wavHeader_def array_slice_def
    by (simp add: le_decode_le_bytes)
  show "readUIntLE (wavHeader N @ data) 32 2 = 2"
    unfolding readUIntLE_def wavHeader_def array_slice_def
    by (simp add: le_decode_le_bytes)
  show "readUIntLE (wavHeader N @ data) 34 2 = 16"
    unfolding readUIntLE_def wavHeader_def array_slice_def
    by (simp add: le_decode_le_bytes)
  show "readAscii (wavHeader N @ data) 36 4 = ''data''"
    unfolding readAscii_def wavHeader_def array_slice_def
    by (simp add: ascii_roundtrip)
  show "readUIntLE (wavHeader N @ data) 40 4 = 2 * N"
    unfolding readUIntLE_def wavHeader_def array_slice_def
    by (simp add: le_decode_le_bytes m2 n1 del: power_numeral)
qed

lemma decodeWAV_standard:
  assumes "36 + 2 * length xs \<le> 4294967295" "\<forall>v \<in> set xs. - 32768 \<le> v \<and> v \<le> 32767"
  shows "decodeWAV (wavHeader (length xs) @ concat (map (le_bytes 2) xs))
       = Some (standardHeader (length xs), xs)"
proof -
  let ?data = "concat (map (le_bytes 2) xs)"
  have ld: "length ?data = 2 * length xs" by (rule length_concat_le_bytes)
  note h = decode_header [OF assms(1) ld]
  have s: "map (\<lambda>k. readInt16LE (wavHeader (length xs) @ ?data) (44 + 2 * k)) [0..<length xs] = xs"
    using length_wavHeader assms(2) by (rule decode_samples)
  show ?thesis
    unfolding decodeWAV_def Let_def h standardHeader_def
    by (simp add: length_wavHeader ld s)
qed

lemma toWAVBuffer_None_iff: "toWAVBuffer kMaxLength junk p = Inr None \<longleftrightarrow> samples p = []"
  by (auto simp add: toWAVBuffer_def Let_def split: sum.splits prod.splits)

subsection \<open>Session pipeline\<close>

lemma keeps_refl: "keeps c c"
  by (simp add: keeps_def)

lemma keeps_trans: "keeps a b \<Longrightarrow> keeps b c \<Longrightarrow> keeps a c"
  by (simp add: keeps_def)

lemma generateAndPlayResponse_frame:
  "transcribeCalls (generateAndPlayResponse env ucid t c) = transcribeCalls c"
  "isTranscribing (generateAndPlayResponse env ucid t c) = isTranscribing c"
  "audioProcessors (generateAndPlayResponse env ucid t c) = audioProcessors c"
  "transcriptionBuffers (generateAndPlayResponse env ucid t c) = transcriptionBuffers c"
  "playbackQueues (generateAndPlayResponse env ucid t c) = playbackQueues c"
  by (simp_all add: generateAndPlayResponse_def Let_def split: option.splits outcome.splits)

lemma generateAndPlayResponse_keeps: "keeps c (generateAndPlayResponse env ucid t c)"
  by (simp add: keeps_def generateAndPlayResponse_def Let_def split: option.splits outcome.splits)

lemma streamTranscription_frame:
  "transcribeCalls (snd (streamTranscription env ucid wav lang c)) = transcribeCalls c + 1"
  "isTranscribing (snd (streamTranscription env ucid wav lang c)) = isTranscribing c"
  "audioProcessors (snd (streamTranscription env ucid wav lang c)) = audioProcessors c"
  "playbackQueues (snd (streamTranscription env ucid wav lang c)) = playbackQueues c"
proof -
  show "transcribeCalls (snd (streamTranscription env ucid wav lang c)) = transcribeCalls c + 1"
    unfolding streamTranscription_def Let_def
    by (cases "transcriptionsCreate env (transcribeCalls c) wav (if lang = ''auto'' then None else Some lang)")
       (simp_all add: generateAndPlayResponse_frame split: option.splits)
  show "isTranscribing (snd (streamTranscription env ucid wav lang c)) = isTranscribing c"
    unfolding streamTranscription_def Let_def
    by (cases "transcriptionsCreate env (transcribeCalls c) wav (if lang = ''auto'' then None else Some lang)")
       (simp_all add: generateAndPlayResponse_frame split: option.splits)
  show "audioProcessors (snd (streamTranscription env ucid wav lang c)) = audioProcessors c"
    unfolding streamTranscription_def Let_def
    by (cases "transcriptionsCreate env (transcribeCalls c) wav (if lang = ''auto'' then None else Some lang)")
       (simp_all add: generateAndPlayResponse_frame split: option.splits)
  show "playbackQueues (snd (streamTranscription env ucid wav lang c)) = playbackQueues c"
    unfolding streamTranscription_def Let_def
    by (cases "transcriptionsCreate env (transcribeCalls c) wav (if lang = ''auto'' then None else Some lang)")
       (simp_all add: generateAndPlayResponse_frame split: option.splits)
qed

lemma keeps_buffer_update:
  "keeps c (c\<lparr>transcribeCalls := n, transcriptionBuffers := (transcriptionBuffers c)(ucid \<mapsto> b)\<rparr>)"
  "keeps c (c\<lparr>transcribeCalls := n\<rparr>)"
  by (simp_all add: keeps_def)

lemma streamTranscription_keeps: "keeps c (snd (streamTranscription env ucid wav lang c))"
proof (cases "transcriptionsCreate env (transcribeCalls c) wav (if lang = ''auto'' then None else Some lang)")
  case Rejected
  then show ?thesis by (simp add: streamTranscription_def Let_def keeps_def)
next
  case (Resolved tr)
  let ?c1 = "c\<lparr>transcribeCalls := transcribeCalls c + 1\<rparr>"
  let ?text = "case transcriptionText tr of None \<Rightarrow> [] | Some t \<Rightarrow> trim t"
  show ?thesis
  proof (cases "isValidTranscription ?text")
    case False
    with Resolved show ?thesis by (simp add: streamTranscription_def Let_def keeps_def)
  next
    case True
    obtain c2 where c2: "keeps c c2"
      "snd (streamTranscription env ucid wav lang c) = c2
       \<or> snd (streamTranscription env ucid wav lang c) = generateAndPlayResponse env ucid ?text c2"
    proof (cases "transcriptionBuffers c ucid")
      case None
      with Resolved True have "snd (streamTranscription env ucid wav lang c) = ?c1
       \<or> snd (streamTranscription env ucid wav lang c) = generateAndPlayResponse env ucid ?text ?c1"
        by (simp add: streamTranscription_def Let_def)
      with that [of ?c1] show ?thesis by (simp add: keeps_def)
    next
      case (Some b)
      let ?c2 = "?c1\<lparr>transcriptionBuffers := (transcriptionBuffers ?c1)(ucid \<mapsto>
                    b\<lparr>finalText := finalText b @ (if finalText b \<noteq> [] then str '' '' else []) @ ?text,
                      bufferLanguage := (case transcriptionLanguage tr of None \<Rightarrow> lang
                                         | Some l \<Rightarrow> if l = [] then lang else l)\<rparr>)\<rparr>"
      from Some Resolved True have "snd (streamTranscription env ucid wav lang c) = ?c2
       \<or> snd (streamTranscription env ucid wav lang c) = generateAndPlayResponse env ucid ?text ?c2"
        by (simp add: streamTranscription_def Let_def)
      with that [of ?c2] show ?thesis by (simp add: keeps_def)
    qed
    from c2(2) show ?thesis
    proof
      assume "snd (streamTranscription env ucid wav lang c) = c2"
      with c2(1) show ?thesis by simp
    next
      assume "snd (streamTranscription env ucid wav lang c) = generateAndPlayResponse env ucid ?text c2"
      with keeps_trans [OF c2(1) generateAndPlayResponse_keeps] show ?thesis by simp
    qed
  qed
qed

lemma processAudioChunk_try_cases:
  "processAudioChunk_try env now later ucid p s c = c
   \<or> processAudioChunk_try env now later ucid p s c
        = c\<lparr>audioProcessors := (audioProcessors c)(ucid \<mapsto> reset now p)\<rparr>
   \<or> (\<exists>wav c'. c' = snd (streamTranscription env ucid wav (language s) c)
         \<and> (processAudioChunk_try env now later ucid p s c = c'
            \<or> processAudioChunk_try env now later ucid p s c
               = c'\<lparr>audioProcessors := (audioProcessors c')(ucid \<mapsto> reset later p),
                    streamingSessions := (streamingSessions c')(ucid :=
                         map_option (\<lambda>s. s\<lparr>transcriptionChunks := transcriptionChunks s + 1\<rparr>)
                                    (streamingSessions c' ucid))\<rparr>))"
proof (cases "toWAVBuffer (env_kMaxLength env) (env_junk env) p")
  case (Inl e)
  then show ?thesis by (simp add: processAudioChunk_try_def)
next
  case (Inr r)
  show ?thesis
  proof (cases r)
    case None
    with Inr show ?thesis by (simp add: processAudioChunk_try_def)
  next
    case (Some wav)
    show ?thesis
    proof (cases "validateAudioChunk p")
      case False
      with Inr Some show ?thesis by (simp add: processAudioChunk_try_def)
    next
      case True
      obtain e c' where st: "streamTranscription env ucid wav (language s) c = (e, c')"
        by (cases "streamTranscription env ucid wav (language s) c")
      then have "c' = snd (streamTranscription env ucid wav (language s) c)" by simp
      moreover from st Inr Some True
      have "processAudioChunk_try env now later ucid p s c = c'
            \<or> processAudioChunk_try env now later ucid p s c
               = c'\<lparr>audioProcessors := (audioProcessors c')(ucid \<mapsto> reset later p),
                    streamingSessions := (streamingSessions c')(ucid :=
                         map_option (\<lambda>s. s\<lparr>transcriptionChunks := transcriptionChunks s + 1\<rparr>)
                                    (streamingSessions c' ucid))\<rparr>"
        by (cases e) (simp_all add: processAudioChunk_try_def)
      ultimately show ?thesis by blast
    qed
  qed
qed

lemma keeps_try_updates:
  "keeps c (c\<lparr>audioProcessors := (audioProcessors c)(ucid \<mapsto> p)\<rparr>)"
  "keeps c (c\<lparr>audioProcessors := (audioProcessors c)(ucid \<mapsto> p),
             streamingSessions := (streamingSessions c)(ucid := map_option f (streamingSessions c ucid))\<rparr>)"
  by (auto simp add: keeps_def)

lemma processAudioChunk_try_keeps: "keeps c (processAudioChunk_try env now later ucid p s c)"
proof -
  let ?r = "processAudioChunk_try env now later ucid p s c"
  consider "?r = c" | "?r = c\<lparr>audioProcessors := (audioProcessors c)(ucid \<mapsto> reset now p)\<rparr>"
    | wav c' where "c' = snd (streamTranscription env ucid wav (language s) c)" "?r = c'"
    | wav c' where "c' = snd (streamTranscription env ucid wav (language s) c)"
        "?r = c'\<lparr>audioProcessors := (audioProcessors c')(ucid \<mapsto> reset later p),
                    streamingSessions := (streamingSessions c')(ucid :=
                         map_option (\<lambda>s. s\<lparr>transcriptionChunks := transcriptionChunks s + 1\<rparr>)
                                    (streamingSessions c' ucid))\<rparr>"
    using processAudioChunk_try_cases [of env now later ucid p s c] by blast
  then show ?thesis
  proof cases
    case 1
    then show ?thesis by (simp add: keeps_refl)
  next
    case 2
    then show ?thesis by (simp add: keeps_try_updates(1))
  next
    case 3
    then show ?thesis by (simp add: streamTranscription_keeps)
  next
    case 4
    have "keeps c c'" unfolding 4(1) by (rule streamTranscription_keeps)
    moreover have "keeps c' ?r" unfolding 4(2) by (rule keeps_try_updates(2))
    ultimately show ?thesis by (rule keeps_trans)
  qed
qed

lemma processAudioChunk_try_flag:
  "isTranscribing (processAudioChunk_try env now later ucid p s c) = isTranscribing c"
  using processAudioChunk_try_cases [of env now later ucid p s c]
  by (elim disjE exE conjE) (simp_all add: streamTranscription_frame)

lemma processAudioChunk_guarded:
  "isTranscribing c ucid = Some True \<Longrightarrow> processAudioChunk env now later ucid c = c"
  by (simp add: processAudioChunk_def split: option.splits)

lemma processAudioChunk_clears:
  assumes "audioProcessors c ucid = Some processor" "streamingSessions c ucid = Some session"
    "transcriptionBuffers c ucid = Some buffer" "isTranscribing c ucid \<noteq> Some True"
  shows "isTranscribing (processAudioChunk env now later ucid c) ucid = Some False"
  using assms by (simp add: processAudioChunk_def Let_def)

lemma processAudioChunk_keeps: "keeps c (processAudioChunk env now later ucid c)"
proof -
  have k: "keeps c ((processAudioChunk_try env now later ucid p s (c\<lparr>isTranscribing := f\<rparr>))\<lparr>isTranscribing := g\<rparr>)"
    for p s f g
  proof -
    let ?c1 = "c\<lparr>isTranscribing := f\<rparr>"
    let ?c2 = "processAudioChunk_try env now later ucid p s ?c1"
    have "keeps c ?c1" by (simp add: keeps_def)
    moreover have "keeps ?c1 ?c2" by (rule processAudioChunk_try_keeps)
    moreover have "keeps ?c2 (?c2\<lparr>isTranscribing := g\<rparr>)" by (simp add: keeps_def)
    ultimately show ?thesis by (blast intro: keeps_trans)
  qed
  show ?thesis
    by (simp add: processAudioChunk_def Let_def keeps_refl k split: option.splits)
qed

lemma processAudioChunk_attempt:
  assumes "audioProcessors c ucid = Some processor" "streamingSessions c ucid = Some session"
    "transcriptionBuffers c ucid = Some buffer" "isTranscribing c ucid \<noteq> Some True"
    "toWAVBuffer (env_kMaxLength env) (env_junk env) processor = Inr (Some wav)"
    "validateAudioChunk processor"
  shows "transcribeCalls (processAudioChunk env now later ucid c) = transcribeCalls c + 1"
proof -
  let ?c1 = "c\<lparr>isTranscribing := (isTranscribing c)(ucid \<mapsto> True)\<rparr>"
  obtain e c' where st: "streamTranscription env ucid wav (language session) ?c1 = (e, c')"
    by (cases "streamTranscription env ucid wav (language session) ?c1")
  then have "transcribeCalls c' = transcribeCalls c + 1"
    using streamTranscription_frame(1) [of env ucid wav "language session" ?c1] by simp
  with st assms show ?thesis
    by (cases e) (simp_all add: processAudioChunk_def processAudioChunk_try_def Let_def)
qed

lemma handleAudioChunk_bufferChunk:
  assumes "audioProcessors c (msg_ucid message) = Some processor"
    "streamingSessions c (msg_ucid message) = Some session" "msg_samples message \<noteq> []"
  shows "handleAudioChunk env now later message c =
     (if shouldSendToAPI now (addSamples now (msg_samples message) processor)
         \<and> isTranscribing c (msg_ucid message) \<noteq> Some True
      then processAudioChunk env now later (msg_ucid message) (bufferChunk now message c)
      else bufferChunk now message c)"
    and "audioProcessors (bufferChunk now message c) (msg_ucid message)
           = Some (addSamples now (msg_samples message) processor)"
  using assms by (simp_all add: handleAudioChunk_def bufferChunk_def Let_def)

lemma bufferChunk_frame:
  "transcribeCalls (bufferChunk now message c) = transcribeCalls c"
  "flowCalls (bufferChunk now message c) = flowCalls c"
  "isTranscribing (bufferChunk now message c) = isTranscribing c"
  "isPlayingBack (bufferChunk now message c) = isPlayingBack c"
  "transcriptionBuffers (bufferChunk now message c) = transcriptionBuffers c"
  "playbackQueues (bufferChunk now message c) = playbackQueues c"
  by (simp_all add: bufferChunk_def split: option.splits)

lemma bufferChunk_keeps: "keeps c (bufferChunk now message c)"
  by (simp add: bufferChunk_def keeps_def split: option.splits)

lemma handleAudioChunk_guarded:
  assumes "isTranscribing c (msg_ucid message) = Some True"
  shows "handleAudioChunk env now later message c = bufferChunk now message c"
  using assms by (simp add: handleAudioChunk_def bufferChunk_def Let_def split: option.splits)

lemma foldl_squares_const:
  "\<forall>x \<in> set xs. x = v \<Longrightarrow> foldl (\<lambda>acc sample. acc + sample * sample) a xs = a + int (length xs) * (v * v)"
  by (induction xs arbitrary: a) (simp_all add: algebra_simps)

lemma rms_const:
  assumes "\<forall>x \<in> set xs. x = v" "xs \<noteq> []"
  shows "rms xs = \<bar>real_of_int v\<bar>"
proof -
  have "real_of_int (foldl (\<lambda>acc sample. acc + sample * sample) 0 xs) / real (length xs)
      = real_of_int v * real_of_int v"
    using assms by (simp add: foldl_squares_const)
  then show ?thesis by (simp add: rms_def)
qed

lemma startedClient_maps:
  "audioProcessors startedClient ''A'' = Some (newAudioProcessor 0
      \<lparr> opt_minAudioDuration = Some 1500, opt_maxAudioDuration = Some 4000,
        opt_silenceThreshold = Some 1000, opt_silenceAmplitude = Some 300,
        opt_sampleRate = Some 8000, opt_bitsPerSample = None, opt_channels = None \<rparr>)"
  "streamingSessions startedClient ''A'' = Some \<lparr> language = ''en'', voice = ''alloy'', sessionStart = 0,
      totalAudioMs = 0, transcriptionChunks = 0, playbackChunks = 0 \<rparr>"
  "transcriptionBuffers startedClient ''A'' = Some \<lparr> partialText = [], finalText = [], bufferLanguage = ''en'' \<rparr>"
  "isTranscribing startedClient ''A'' = Some False"
  "transcribeCalls startedClient = 0"
  by (simp_all add: startedClient_def handleStreamStart_def newStreamingClient_def defaultClientConfig_def Let_def)

lemma addSamples_loud:
  "addSamples 0 (replicate 32000 1000) (newAudioProcessor 0
      \<lparr> opt_minAudioDuration = Some 1500, opt_maxAudioDuration = Some 4000,
        opt_silenceThreshold = Some 1000, opt_silenceAmplitude = Some 300,
        opt_sampleRate = Some 8000, opt_bitsPerSample = None, opt_channels = None \<rparr>) = loadedProcessor"
proof -
  have "rms (replicate 32000 1000) = 1000"
    using rms_const [of "replicate 32000 1000" 1000] by simp
  then show ?thesis
    by (simp add: addSamples_def detectAudioActivity_def newAudioProcessor_def mkConfig_def js_or_def
        loadedProcessor_def Let_def)
qed

lemma loadedProcessor_facts:
  "shouldSendToAPI now loadedProcessor"
  "validateAudioChunk loadedProcessor"
  "\<exists>wav. toWAVBuffer 4294967296 zeroMemory loadedProcessor = Inr (Some wav)"
proof -
  have r: "rms (replicate 32000 1000) = 1000"
    using rms_const [of "replicate 32000 1000" 1000] by simp
  show "shouldSendToAPI now loadedProcessor"
    by (simp add: shouldSendToAPI_def getDurationMs_def loadedProcessor_def Let_def)
  show "validateAudioChunk loadedProcessor"
    by (simp add: validateAudioChunk_def getDurationMs_def loadedProcessor_def r)
  have "toWAVBuffer 4294967296 zeroMemory loadedProcessor
      = Inr (Some (wavHeader (length (samples loadedProcessor)) @ concat (map (le_bytes 2) (samples loadedProcessor))))"
    by (rule toWAVBuffer_standard) (simp_all add: standardConfig_def loadedProcessor_def)
  then show "\<exists>wav. toWAVBuffer 4294967296 zeroMemory loadedProcessor = Inr (Some wav)" by blast
qed

lemma length_trim_le: "length (trim s) \<le> length s"
proof -
  have "length (trim s) \<le> length (dropWhile isWhiteSpace s)"
    unfolding trim_def using length_dropWhile_le [of isWhiteSpace "rev (dropWhile isWhiteSpace s)"]
    by simp
  also have "\<dots> \<le> length s" by (rule length_dropWhile_le)
  finally show ?thesis .
qed

lemma isValidTranscription_short: "length (trim t) < 2 \<Longrightarrow> \<not> isValidTranscription t"
  by (simp add: isValidTranscription_def)

lemma loaded_client:
  "audioProcessors (bufferChunk 0 loudChunk startedClient) ''A'' = Some loadedProcessor"
  "streamingSessions (bufferChunk 0 loudChunk startedClient) ''A'' \<noteq> None"
  "transcriptionBuffers (bufferChunk 0 loudChunk startedClient) ''A'' \<noteq> None"
  "isTranscribing (bufferChunk 0 loudChunk startedClient) ''A'' = Some False"
  "transcribeCalls (bufferChunk 0 loudChunk startedClient) = 0"
  by (simp_all add: bufferChunk_def startedClient_maps loudChunk_def addSamples_loud bufferChunk_frame)

lemma rejected_pipeline:
  assumes "audioProcessors c ucid = Some p" "streamingSessions c ucid = Some s"
    "transcriptionBuffers c ucid = Some b" "isTranscribing c ucid \<noteq> Some True"
    "toWAVBuffer (env_kMaxLength rejectingEnv) (env_junk rejectingEnv) p = Inr (Some wav)"
    "validateAudioChunk p"
  shows "processAudioChunk rejectingEnv now later ucid c
       = c\<lparr>isTranscribing := (isTranscribing c)(ucid \<mapsto> False), transcribeCalls := transcribeCalls c + 1\<rparr>"
  using assms
  by (simp add: processAudioChunk_def processAudioChunk_try_def streamTranscription_def Let_def
      rejectingEnv_def)

lemma addSamples_next:
  "samples (addSamples 50 [1000] loadedProcessor) = replicate 32000 1000 @ [1000]"
  "totalSamples (addSamples 50 [1000] loadedProcessor) = 32001"
  "config (addSamples 50 [1000] loadedProcessor) = config loadedProcessor"
  by (simp_all add: addSamples_def loadedProcessor_def Let_def)

lemma next_processor_facts:
  "shouldSendToAPI 50 (addSamples 50 [1000] loadedProcessor)"
  "validateAudioChunk (addSamples 50 [1000] loadedProcessor)"
  "\<exists>wav. toWAVBuffer 4294967296 zeroMemory (addSamples 50 [1000] loadedProcessor) = Inr (Some wav)"
proof -
  let ?p = "addSamples 50 [1000] loadedProcessor"
  have c: "config ?p = config loadedProcessor" by (rule addSamples_next)
  have r: "rms (samples ?p) = 1000"
    unfolding addSamples_next using rms_const [of "replicate 32000 1000 @ [1000]" 1000] by simp
  show "shouldSendToAPI 50 ?p"
    unfolding shouldSendToAPI_def getDurationMs_def Let_def c addSamples_next
    by (simp add: loadedProcessor_def)
  show "validateAudioChunk ?p"
    unfolding validateAudioChunk_def getDurationMs_def c addSamples_next(2) r
    by (simp add: loadedProcessor_def)
  have "toWAVBuffer 4294967296 zeroMemory ?p
      = Inr (Some (wavHeader (length (samples ?p)) @ concat (map (le_bytes 2) (samples ?p))))"
    unfolding addSamples_next(1)
    by (rule toWAVBuffer_standard [of "addSamples 50 [1000] loadedProcessor", unfolded addSamples_next(1)])
       (simp_all add: standardConfig_def c, simp_all add: loadedProcessor_def)
  then show "\<exists>wav. toWAVBuffer 4294967296 zeroMemory ?p = Inr (Some wav)" by blast
qed

subsection \<open>The first media packet\<close>




subsection \<open>Shaping a centred array\<close>

lemma removeDCOffset_centred:
  assumes "xs \<noteq> []" "sum_list xs = 0"
  shows "removeDCOffset xs = xs"
proof -
  have "Math_round (- mean xs) = 0" using assms(2) by (simp add: mean_def Math_round_def)
  then show ?thesis using removeDCOffset_shift [OF assms(1)] by simp
qed

section \<open>Claims\<close>

text \<open>
  C5. For every non-empty sample array, DC-offset removal computes the arithmetic mean of the
  array and replaces every sample by the sample minus the mean, rounded to the nearest integer;
  the arithmetic mean of the output then has absolute value at most 0.5.
\<close>

theorem C5_removeDCOffset_centres:
  assumes "xs \<noteq> []"
  shows "removeDCOffset xs = map (\<lambda>s. Math_round (real_of_int s - mean xs)) xs
       \<and> \<bar>mean (removeDCOffset xs)\<bar> \<le> 1 / 2"
proof
  from assms show "removeDCOffset xs = map (\<lambda>s. Math_round (real_of_int s - mean xs)) xs"
    by (simp add: removeDCOffset_def mean_def foldl_plus_sum_list)
next
  have "mean (removeDCOffset xs) = mean xs + real_of_int (Math_round (- mean xs))"
    using assms by (simp add: removeDCOffset_shift mean_map_add_const)
  with Math_round_error [of "- mean xs"] show "\<bar>mean (removeDCOffset xs)\<bar> \<le> 1 / 2"
    by linarith
qed

theorem C5_removeDCOffset_centres_witness:
  "[10, 11, 13 :: int] \<noteq> []
   \<and> removeDCOffset [10, 11, 13] = [-1, 0, 2]
   \<and> \<bar>mean (removeDCOffset [10, 11, 13])\<bar> \<le> 1 / 2"
proof -
  have ne: "[10, 11, 13 :: int] \<noteq> []" by simp
  have m: "mean [10, 11, 13] = 34 / 3" by (simp add: mean_def)
  have r: "Math_round (10 - 34 / 3) = -1" "Math_round (11 - 34 / 3) = 0" "Math_round (13 - 34 / 3) = 2"
    by (simp_all add: Math_round_def)
  have out: "removeDCOffset [10, 11, 13] = [-1, 0, 2]"
    using C5_removeDCOffset_centres [OF ne] m r by simp
  from C5_removeDCOffset_centres [OF ne] ne out show ?thesis by blast
qed

text \<open>
  C2. For every buffer state and every clock reading, \<open>shouldSendToAPI\<close> is true if the
  accumulated duration has reached \<open>maxAudioDuration\<close>, whatever the voice activity; otherwise
  true if the silence has lasted \<open>silenceThreshold\<close> and the duration has reached
  \<open>minAudioDuration\<close>; otherwise false. In particular, in that last case, silence that has
  lasted the threshold with less than the minimum duration gives false.
\<close>

theorem C2_shouldSendToAPI_policy:
  "shouldSendToAPI now p =
     (if getDurationMs p \<ge> maxAudioDuration (config p) then True
      else if real_of_int (now - lastAudioTime p) \<ge> silenceThreshold (config p)
              \<and> getDurationMs p \<ge> minAudioDuration (config p) then True
      else False)
   \<and> (getDurationMs p < maxAudioDuration (config p)
        \<and> real_of_int (now - lastAudioTime p) \<ge> silenceThreshold (config p)
        \<and> getDurationMs p < minAudioDuration (config p)
      \<longrightarrow> \<not> shouldSendToAPI now p)"
  by (auto simp add: shouldSendToAPI_def isSilent_def Let_def)

theorem C2_shouldSendToAPI_policy_witness:
  "getDurationMs (newAudioProcessor 0 noOptions\<lparr>totalSamples := 4000\<rparr>) = 500
   \<and> \<not> shouldSendToAPI 1300 (newAudioProcessor 0 noOptions\<lparr>totalSamples := 4000\<rparr>)
   \<and> shouldSendToAPI 1300 (newAudioProcessor 0 noOptions\<lparr>totalSamples := 8000\<rparr>)
   \<and> shouldSendToAPI 0 (newAudioProcessor 0 noOptions\<lparr>totalSamples := 40000\<rparr>)"
  using C2_shouldSendToAPI_policy [of 1300 "newAudioProcessor 0 noOptions\<lparr>totalSamples := 4000\<rparr>"]
    C2_shouldSendToAPI_policy [of 1300 "newAudioProcessor 0 noOptions\<lparr>totalSamples := 8000\<rparr>"]
    C2_shouldSendToAPI_policy [of 0 "newAudioProcessor 0 noOptions\<lparr>totalSamples := 40000\<rparr>"]
  by (simp add: getDurationMs_def newAudioProcessor_def mkConfig_def noOptions_def js_or_def)


text \<open>
  C3. On a live connection, for every non-empty sample array, whose shaped form (DC offset
  removed, crossfaded) has length N, \<open>sendAudioToOzonetel\<close> appends exactly ceil(N/400)
  packets to the connection, each holding exactly 400 samples; when N is not a multiple of 400
  the last packet is the remaining N mod 400 shaped samples followed by the fade
  \<open>pad[i] = Math.round(lastValue * (1 - i / padLength))\<close> from the last shaped sample,
  evaluated in double precision: the quotient, the difference and the product are each rounded
  to the nearest double before \<open>Math.round\<close>.
\<close>

theorem C3_sendAudio_packetization:
  assumes "ucidToConnection srv ucid = Some c" and "ws_readyState (sockets srv c) = OPEN"
    and "xs \<noteq> []"
  defines "shaped \<equiv> fst (applyCrossfade ucid (removeDCOffset xs) srv)"
  defines "N \<equiv> length shaped"
  shows "\<exists>packets.
     ws_sent (sockets (snd (sendAudioToOzonetel ucid xs srv)) c) = ws_sent (sockets srv c) @ packets
     \<and> int (length packets) = \<lceil>real N / 400\<rceil>
     \<and> (\<forall>p \<in> set packets. length (data_samples (packet_data p)) = 400
                           \<and> data_numberOfFrames (packet_data p) = 400)
     \<and> (N mod 400 \<noteq> 0 \<longrightarrow>
          data_samples (packet_data (last packets)) =
            drop (N - N mod 400) shaped
            @ map (\<lambda>i. Math_round (js_mul (real_of_int (last shaped))
                                            (js_sub 1 (js_div (real i) (real (400 - N mod 400))))))
                  [0..<400 - N mod 400])"
proof -
  let ?f = "\<lambda>j. mkPacket ucid (paddedChunk shaped (PACKET_SIZE * j))"
  let ?cnt = "(N + 399) div 400"
  let ?packets = "map ?f [0..<?cnt]"
  have N: "N = length xs"
    by (simp add: N_def shaped_def length_applyCrossfade length_removeDCOffset)
  have sent: "ws_sent (sockets (snd (sendAudioToOzonetel ucid xs srv)) c) = ws_sent (sockets srv c) @ ?packets"
    using sendAudio_sent(2) [OF assms(1,2), of xs] by (simp add: shaped_def N)
  have cnt: "int (length ?packets) = \<lceil>real N / 400\<rceil>"
    by (simp add: ceiling_packets)
  have len: "\<forall>p \<in> set ?packets. length (data_samples (packet_data p)) = 400
                           \<and> data_numberOfFrames (packet_data p) = 400"
    using length_paddedChunk by (auto simp add: mkPacket_def PACKET_SIZE_def)
  have fin: "data_samples (packet_data (last ?packets)) =
            drop (N - N mod 400) shaped
            @ map (\<lambda>i. Math_round (js_mul (real_of_int (last shaped))
                                            (js_sub 1 (js_div (real i) (real (400 - N mod 400))))))
                  [0..<400 - N mod 400]" if r: "N mod 400 \<noteq> 0"
  proof -
    have "N div 400 * 400 + N mod 400 = N" by (rule div_mult_mod_eq)
    with r have "N + 399 = (N div 400 + 1) * 400 + (N mod 400 - 1)" by simp
    moreover have "N mod 400 - 1 < 400" by (simp add: less_imp_diff_less)
    ultimately have c: "?cnt = N div 400 + 1"
      by (metis div_mult_self3 div_less add.commute add_0 zero_neq_numeral)
    then have "last ?packets = ?f (N div 400)"
      by (simp add: last_map del: upt_Suc)
    then show ?thesis
      using last_paddedChunk [of N shaped] r by (simp add: mkPacket_def N_def)
  qed
  from sent cnt len fin show ?thesis by blast
qed

theorem C3_sendAudio_packetization_witness:
  "\<exists>packets.
     ws_sent (sockets (snd (sendAudioToOzonetel ''A'' [7, 9] (openServer 0))) 0) = packets
     \<and> length packets = 1
     \<and> (\<forall>p \<in> set packets. length (data_samples (packet_data p)) = 400)
     \<and> take 4 (data_samples (packet_data (last packets))) = [-1, 1, 1, 1]"
proof -
  have sh: "fst (applyCrossfade ''A'' (removeDCOffset [7, 9]) (openServer 0)) = [-1, 1]"
    by (simp add: applyCrossfade_def removeDCOffset_def Math_round_def openServer_def)
  have up: "[0..<398] = 0 # 1 # [2..<398]"
    by (simp add: upt_conv_Cons)
  have c: "\<lceil>(1::real) / 200\<rceil> = 1"
    by (rule ceiling_unique) simp_all
  have v: "Math_round (js_mul 1 (js_sub 1 (js_div 0 398))) = 1"
    "Math_round (js_mul 1 (js_sub 1 (js_div 1 398))) = 1"
    by code_simp+
  have "ucidToConnection (openServer 0) ''A'' = Some 0"
    "ws_readyState (sockets (openServer 0) 0) = OPEN" "[7, 9 :: int] \<noteq> []"
    by (simp_all add: openServer_def)
  from C3_sendAudio_packetization [OF this] show ?thesis
    unfolding sh by (auto simp add: up c v openServer_def simp del: upt_Suc)
qed

text \<open>
  Read over the real numbers the fade formula gives other samples than the code: for 197
  samples of -3 followed by 197 of 3 (already centred, nothing to crossfade) the last of the
  six padding samples, index 399 of the packet, is 0, where
  \<open>round(3 * (1 - 5 / 6)) = round(1 / 2) = 1\<close>: in double precision \<open>1 - 5 / 6\<close> lies
  below 1 / 6 and its product with 3 below 1 / 2.
\<close>

theorem C3_sendAudio_packetization_counterexample:
  "fst (applyCrossfade ''A'' (removeDCOffset (replicate 197 (- 3) @ replicate 197 3)) (openServer 0))
     = replicate 197 (- 3) @ replicate 197 3
   \<and> data_samples (packet_data (last (ws_sent (sockets (snd (sendAudioToOzonetel ''A''
        (replicate 197 (- 3) @ replicate 197 3) (openServer 0))) 0)))) ! 399 = 0
   \<and> Math_round (3 * (1 - 5 / 6)) = 1"
proof -
  let ?xs = "replicate 197 (- 3) @ replicate 197 (3 :: int)"
  have dc: "removeDCOffset ?xs = ?xs"
    by (rule removeDCOffset_centred) (simp_all add: sum_list_replicate)
  have sh: "fst (applyCrossfade ''A'' (removeDCOffset ?xs) (openServer 0)) = ?xs"
    unfolding dc by (rule applyCrossfade_zero) (simp add: openServer_def)
  have sent: "ws_sent (sockets (snd (sendAudioToOzonetel ''A'' ?xs (openServer 0))) 0)
      = [mkPacket ''A'' (paddedChunk ?xs (PACKET_SIZE * 0))]"
    using sendAudio_sent(2) [of "openServer 0" "''A''" 0 ?xs]
    unfolding sh by (simp add: openServer_def)
  have pc: "paddedChunk ?xs (PACKET_SIZE * (394 div 400))
      = drop (394 - 394 mod 400) ?xs
        @ map (\<lambda>i. Math_round (js_mul (real_of_int (last ?xs))
                                        (js_sub 1 (js_div (real i) (real (400 - 394 mod 400))))))
              [0..<400 - 394 mod 400]"
    by (rule last_paddedChunk) simp_all
  have v: "Math_round (js_mul 3 (js_sub 1 (js_div 5 6))) = 0"
    by code_simp
  have up: "[0..<6] = [0, 1, 2, 3, 4, 5]"
    by (simp add: upt_conv_Cons)
  have "paddedChunk ?xs (PACKET_SIZE * 0) ! 399 = 0"
    using pc by (simp add: up v nth_append)
  then have "data_samples (packet_data (last (ws_sent (sockets (snd (sendAudioToOzonetel ''A''
        ?xs (openServer 0))) 0)))) ! 399 = 0"
    unfolding sent by (simp add: mkPacket_def)
  moreover have "Math_round (3 * (1 - 5 / 6)) = 1"
    by (simp add: Math_round_def)
  ultimately show ?thesis using sh by blast
qed

text \<open>
  C4. For every sample array S and every last-emitted sample L stored for the call id: if L is
  not 0, the crossfade keeps the length, output sample i is
  \<open>Math.round(L * (1 - t) + S[i] * t)\<close> with \<open>t = i / fadeLength\<close> for every i below
  \<open>fadeLength = min(20, length S)\<close>, evaluated in double precision (the quotient, the
  difference, the two products and the sum are each rounded to the nearest double before
  \<open>Math.round\<close>), and is S[i] for every other index; if L is 0 or nothing is stored (no map
  yet, or no entry for the call id), the output is S.
\<close>

theorem C4_applyCrossfade:
  "(\<forall>m L. lastSamples srv = Some m \<and> m ucid = Some L \<and> L \<noteq> 0 \<longrightarrow>
       length (fst (applyCrossfade ucid S srv)) = length S
       \<and> (\<forall>i < length S.
            fst (applyCrossfade ucid S srv) ! i =
              (if i < min 20 (length S)
               then Math_round
                      (js_add (js_mul (real_of_int L) (js_sub 1 (js_div (real i) (real (min 20 (length S))))))
                              (js_mul (real_of_int (S ! i)) (js_div (real i) (real (min 20 (length S))))))
               else S ! i)))
   \<and> ((case lastSamples srv of None \<Rightarrow> None | Some m \<Rightarrow> m ucid) \<in> {None, Some 0} \<longrightarrow>
        fst (applyCrossfade ucid S srv) = S)"
proof (intro conjI allI impI)
  fix m L i
  assume a: "lastSamples srv = Some m \<and> m ucid = Some L \<and> L \<noteq> 0"
  then show "length (fst (applyCrossfade ucid S srv)) = length S"
    by (simp add: length_applyCrossfade)
  assume "i < length S"
  with a show "fst (applyCrossfade ucid S srv) ! i =
              (if i < min 20 (length S)
               then Math_round
                      (js_add (js_mul (real_of_int L) (js_sub 1 (js_div (real i) (real (min 20 (length S))))))
                              (js_mul (real_of_int (S ! i)) (js_div (real i) (real (min 20 (length S))))))
               else S ! i)"
    using applyCrossfade_nth(2) [where srv = srv and m = m and ucid = ucid and L = L and i = i and S = S]
    by blast
next
  assume "(case lastSamples srv of None \<Rightarrow> None | Some m \<Rightarrow> m ucid) \<in> {None, Some 0}"
  then show "fst (applyCrossfade ucid S srv) = S"
    using applyCrossfade_zero [where srv = srv and ucid = ucid and S = S] by blast
qed

theorem C4_applyCrossfade_witness:
  "fst (applyCrossfade ''A'' [200, 200, 200] (openServer 100)) ! 1 = 133
   \<and> fst (applyCrossfade ''A'' [200, 200, 200] (openServer 0)) = [200, 200, 200]"
proof -
  have v: "Math_round (js_add (js_mul 100 (js_sub 1 (js_div 1 3))) (js_mul 200 (js_div 1 3))) = 133"
    by code_simp
  show ?thesis
    using C4_applyCrossfade [of "openServer 100" "''A''" "[200, 200, 200]"]
      C4_applyCrossfade [of "openServer 0" "''A''" "[200, 200, 200]"]
    by (simp add: openServer_def v)
qed

text \<open>
  Read over the real numbers the blend gives other samples than the code: with the last
  emitted sample -5 and twenty samples of 0, output sample 14 is -2, where
  \<open>round(-5 * (1 - 14 / 20) + 0 * (14 / 20)) = round(-3 / 2) = -1\<close>: in double precision
  \<open>1 - 14 / 20\<close> lies above 3 / 10 and its product with -5 below -3 / 2.
\<close>

theorem C4_applyCrossfade_counterexample:
  "fst (applyCrossfade ''A'' (replicate 20 0) (openServer (- 5))) ! 14 = - 2
   \<and> Math_round (- 5 * (1 - 14 / 20) + 0 * (14 / 20)) = - 1"
proof -
  have v: "Math_round (js_add (js_mul (- 5) (js_sub 1 (js_div 14 20))) (js_mul 0 (js_div 14 20))) = - 2"
    by code_simp
  have "fst (applyCrossfade ''A'' (replicate 20 0) (openServer (- 5))) ! 14 = - 2"
    using applyCrossfade_nth(2) [of "openServer (- 5)" "[''A'' \<mapsto> - 5]" "''A''" "- 5" 14 "replicate 20 0"]
    by (simp add: openServer_def v)
  moreover have "Math_round (- 5 * (1 - 14 / 20) + 0 * (14 / 20)) = - 1"
    unfolding Math_round_def by (rule floor_unique) simp_all
  ultimately show ?thesis by blast
qed

text \<open>
  C8. For every call id with no live connection (no connection mapped, or the mapped
  connection not open), \<open>sendAudioToOzonetel\<close> returns false and leaves the server as it
  was: nothing is sent on any connection and no last-emitted sample is stored or changed.
\<close>

theorem C8_sendAudio_no_connection:
  assumes "ucidToConnection srv ucid = None
         \<or> (\<exists>c. ucidToConnection srv ucid = Some c \<and> ws_readyState (sockets srv c) \<noteq> OPEN)"
  shows "sendAudioToOzonetel ucid xs srv = (False, srv)"
  using assms by (auto simp add: sendAudioToOzonetel_def)

theorem C8_sendAudio_no_connection_witness:
  "sendAudioToOzonetel ''A'' [1, 2, 3]
      \<lparr>ucidToConnection = [''B'' \<mapsto> 0], sockets = (\<lambda>c. \<lparr>ws_readyState = OPEN, ws_sent = []\<rparr>),
       lastSamples = None\<rparr>
   = (False, \<lparr>ucidToConnection = [''B'' \<mapsto> 0], sockets = (\<lambda>c. \<lparr>ws_readyState = OPEN, ws_sent = []\<rparr>),
       lastSamples = None\<rparr>)
   \<and> sendAudioToOzonetel ''B'' [1, 2, 3]
      \<lparr>ucidToConnection = [''B'' \<mapsto> 0], sockets = (\<lambda>c. \<lparr>ws_readyState = CLOSED, ws_sent = []\<rparr>),
       lastSamples = None\<rparr>
   = (False, \<lparr>ucidToConnection = [''B'' \<mapsto> 0], sockets = (\<lambda>c. \<lparr>ws_readyState = CLOSED, ws_sent = []\<rparr>),
       lastSamples = None\<rparr>)"
  using C8_sendAudio_no_connection [of "\<lparr>ucidToConnection = [''B'' \<mapsto> 0], sockets = (\<lambda>c. \<lparr>ws_readyState = OPEN, ws_sent = []\<rparr>),
       lastSamples = None\<rparr>" "''A''" "[1, 2, 3]"]
    C8_sendAudio_no_connection [of "\<lparr>ucidToConnection = [''B'' \<mapsto> 0], sockets = (\<lambda>c. \<lparr>ws_readyState = CLOSED, ws_sent = []\<rparr>),
       lastSamples = None\<rparr>" "''B''" "[1, 2, 3]"]
  by simp

text \<open>
  C6. \<open>toWAVBuffer\<close> returns none exactly when the buffer is empty. For every non-empty
  buffer of N int16 samples at 8000 Hz, 16 bits, one channel, whose 44 + 2N bytes the runtime
  can hold (at most \<open>kMaxLength\<close> and less than 2^31 bytes, that is more than a thousand
  million samples), it returns exactly 44 + 2N bytes, and decoding them yields the header of
  mono 16-bit PCM at 8000 Hz for N samples and the identical sample sequence.
\<close>

theorem C6_toWAVBuffer_roundtrip:
  "(toWAVBuffer kMaxLength junk p = Inr None \<longleftrightarrow> samples p = [])
   \<and> (standardConfig p \<and> samples p \<noteq> []
        \<and> (\<forall>v \<in> set (samples p). - 32768 \<le> v \<and> v \<le> 32767)
        \<and> 44 + 2 * length (samples p) \<le> min kMaxLength 2147483647
      \<longrightarrow> (\<exists>buf. toWAVBuffer kMaxLength junk p = Inr (Some buf)
                 \<and> length buf = 44 + 2 * length (samples p)
                 \<and> decodeWAV buf = Some (standardHeader (length (samples p)), samples p)))"
proof (intro conjI impI)
  show "toWAVBuffer kMaxLength junk p = Inr None \<longleftrightarrow> samples p = []"
    by (rule toWAVBuffer_None_iff)
next
  assume a: "standardConfig p \<and> samples p \<noteq> []
        \<and> (\<forall>v \<in> set (samples p). - 32768 \<le> v \<and> v \<le> 32767)
        \<and> 44 + 2 * length (samples p) \<le> min kMaxLength 2147483647"
  then have fit: "36 + 2 * length (samples p) \<le> 4294967295" "44 + 2 * length (samples p) \<le> kMaxLength"
    by simp_all
  let ?buf = "wavHeader (length (samples p)) @ concat (map (le_bytes 2) (samples p))"
  from a fit have "toWAVBuffer kMaxLength junk p = Inr (Some ?buf)"
    by (intro toWAVBuffer_standard) simp_all
  moreover have "length ?buf = 44 + 2 * length (samples p)"
    by (simp add: length_wavHeader length_concat_le_bytes)
  moreover from a fit have "decodeWAV ?buf = Some (standardHeader (length (samples p)), samples p)"
    by (intro decodeWAV_standard) simp_all
  ultimately show "\<exists>buf. toWAVBuffer kMaxLength junk p = Inr (Some buf)
                 \<and> length buf = 44 + 2 * length (samples p)
                 \<and> decodeWAV buf = Some (standardHeader (length (samples p)), samples p)"
    by blast
qed

theorem C6_toWAVBuffer_roundtrip_witness:
  "toWAVBuffer 4294967296 zeroMemory (newAudioProcessor 0 noOptions) = Inr None
   \<and> (\<exists>buf. toWAVBuffer 4294967296 zeroMemory
               (newAudioProcessor 0 noOptions\<lparr>samples := [1, - 2], totalSamples := 2\<rparr>) = Inr (Some buf)
           \<and> length buf = 48
           \<and> decodeWAV buf = Some (standardHeader 2, [1, - 2]))"
  using C6_toWAVBuffer_roundtrip [of 4294967296 zeroMemory "newAudioProcessor 0 noOptions"]
    C6_toWAVBuffer_roundtrip [of 4294967296 zeroMemory
       "newAudioProcessor 0 noOptions\<lparr>samples := [1, - 2], totalSamples := 2\<rparr>"]
  by (simp add: standardConfig_def newAudioProcessor_def mkConfig_def noOptions_def js_or_def
        numeral_2_eq_2)

text \<open>
  C1. For every call whose transcribing flag is already true, whether or not the flush
  condition holds: \<open>processAudioChunk\<close> returns the client unchanged, and
  \<open>handleAudioChunk\<close> does no more than buffer the packet; no request is made to the
  transcription service or the flow engine, the flags, the transcription buffers and the
  playback queues stay as they are. This path awaits nothing, so it is also what a packet
  does that arrives while an earlier run of the pipeline is suspended with the flag set.
\<close>

theorem C1_transcribing_guard:
  assumes "isTranscribing c ucid = Some True"
  shows "processAudioChunk env now later ucid c = c
     \<and> (msg_ucid message = ucid \<longrightarrow>
          handleAudioChunk env now later message c = bufferChunk now message c
          \<and> transcribeCalls (handleAudioChunk env now later message c) = transcribeCalls c
          \<and> flowCalls (handleAudioChunk env now later message c) = flowCalls c
          \<and> isTranscribing (handleAudioChunk env now later message c) = isTranscribing c
          \<and> isPlayingBack (handleAudioChunk env now later message c) = isPlayingBack c
          \<and> transcriptionBuffers (handleAudioChunk env now later message c) = transcriptionBuffers c
          \<and> playbackQueues (handleAudioChunk env now later message c) = playbackQueues c)"
  using assms processAudioChunk_guarded [of c ucid env now later]
    handleAudioChunk_guarded [of c message env now later]
  by (simp add: bufferChunk_frame)

theorem C1_transcribing_guard_witness:
  "isTranscribing (handleControl ''A'' PauseTranscription startedClient) ''A'' = Some True
   \<and> audioProcessors (bufferChunk 0 loudChunk (handleControl ''A'' PauseTranscription startedClient)) ''A''
       = Some loadedProcessor
   \<and> shouldSendToAPI 0 loadedProcessor
   \<and> handleAudioChunk (resolvingEnv (str ''hello'')) 0 0 loudChunk (handleControl ''A'' PauseTranscription startedClient)
       = bufferChunk 0 loudChunk (handleControl ''A'' PauseTranscription startedClient)
   \<and> transcribeCalls (handleAudioChunk (resolvingEnv (str ''hello'')) 0 0 loudChunk
         (handleControl ''A'' PauseTranscription startedClient)) = 0"
proof -
  let ?c = "handleControl ''A'' PauseTranscription startedClient"
  have f: "isTranscribing ?c ''A'' = Some True"
    by (simp add: handleControl_def)
  have m: "audioProcessors ?c = audioProcessors startedClient"
    "streamingSessions ?c = streamingSessions startedClient"
    "transcribeCalls ?c = transcribeCalls startedClient"
    by (simp_all add: handleControl_def)
  have b: "audioProcessors (bufferChunk 0 loudChunk ?c) ''A'' = Some loadedProcessor"
    by (simp add: bufferChunk_def m startedClient_maps loudChunk_def addSamples_loud)
  from C1_transcribing_guard [OF f, of "resolvingEnv (str ''hello'')" 0 0 loudChunk] f b
    loadedProcessor_facts(1) [of 0]
  show ?thesis by (simp add: m startedClient_maps loudChunk_def bufferChunk_frame)
qed

text \<open>
  C7. Whenever \<open>processAudioChunk\<close> runs for a call (its processor, session and
  transcription buffer exist and the flag is not set), the call's transcribing flag is false
  afterwards, whatever the collaborators do: success, a rejected chunk, an error of the
  encoder, a rejection of the transcription service. A later packet of the call that meets the
  flush condition then runs \<open>processAudioChunk\<close> again, which again ends with the flag
  false, and makes one more request to the transcription service when the buffered audio
  passes the quality gates.
\<close>

theorem C7_transcribing_cleared:
  assumes "audioProcessors c ucid = Some processor" and "streamingSessions c ucid = Some session"
    and "transcriptionBuffers c ucid = Some buffer" and "isTranscribing c ucid \<noteq> Some True"
  shows "isTranscribing (processAudioChunk env now later ucid c) ucid = Some False
     \<and> (\<forall>env2 now2 later2 message p'.
          msg_ucid message = ucid \<and> msg_samples message \<noteq> []
          \<and> audioProcessors (bufferChunk now2 message (processAudioChunk env now later ucid c)) ucid = Some p'
          \<and> shouldSendToAPI now2 p' \<longrightarrow>
            handleAudioChunk env2 now2 later2 message (processAudioChunk env now later ucid c)
              = processAudioChunk env2 now2 later2 ucid
                  (bufferChunk now2 message (processAudioChunk env now later ucid c))
            \<and> isTranscribing (handleAudioChunk env2 now2 later2 message
                  (processAudioChunk env now later ucid c)) ucid = Some False
            \<and> (\<forall>wav. toWAVBuffer (env_kMaxLength env2) (env_junk env2) p' = Inr (Some wav)
                      \<and> validateAudioChunk p' \<longrightarrow>
                  transcribeCalls (handleAudioChunk env2 now2 later2 message
                      (processAudioChunk env now later ucid c))
                    = transcribeCalls (processAudioChunk env now later ucid c) + 1))"
proof (intro conjI allI impI)
  let ?c' = "processAudioChunk env now later ucid c"
  show cleared: "isTranscribing ?c' ucid = Some False"
    using assms by (rule processAudioChunk_clears)
  fix env2 now2 later2 message p'
  assume a: "msg_ucid message = ucid \<and> msg_samples message \<noteq> []
          \<and> audioProcessors (bufferChunk now2 message ?c') ucid = Some p'
          \<and> shouldSendToAPI now2 p'"
  let ?b = "bufferChunk now2 message ?c'"
  have k: "keeps c ?c'" by (rule processAudioChunk_keeps)
  with assms(1-3) obtain p1 s1 b1 where c': "audioProcessors ?c' ucid = Some p1"
    "streamingSessions ?c' ucid = Some s1" "transcriptionBuffers ?c' ucid = Some b1"
    unfolding keeps_def by (metis not_None_eq)
  have kb: "keeps ?c' ?b" by (rule bufferChunk_keeps)
  with c' obtain p2 s2 b2 where b: "audioProcessors ?b ucid = Some p2"
    "streamingSessions ?b ucid = Some s2" "transcriptionBuffers ?b ucid = Some b2"
    unfolding keeps_def by (metis not_None_eq)
  have fb: "isTranscribing ?b ucid \<noteq> Some True"
    using cleared by (simp add: bufferChunk_frame)
  have p': "p' = addSamples now2 (msg_samples message) p1"
    using handleAudioChunk_bufferChunk(2) [of ?c' message p1 s1 now2] a c' by simp
  show h: "handleAudioChunk env2 now2 later2 message ?c' = processAudioChunk env2 now2 later2 ucid ?b"
    using handleAudioChunk_bufferChunk(1) [of ?c' message p1 s1 env2 now2 later2] a c' cleared p'
    by simp
  show "isTranscribing (handleAudioChunk env2 now2 later2 message ?c') ucid = Some False"
    unfolding h using b fb by (rule processAudioChunk_clears)
  fix wav
  assume w: "toWAVBuffer (env_kMaxLength env2) (env_junk env2) p' = Inr (Some wav) \<and> validateAudioChunk p'"
  from a have bp: "audioProcessors ?b ucid = Some p'" by simp
  have "transcribeCalls (processAudioChunk env2 now2 later2 ucid ?b) = transcribeCalls ?b + 1"
    using bp b(2,3) fb w by (intro processAudioChunk_attempt [where wav = wav]) blast+
  then show "transcribeCalls (handleAudioChunk env2 now2 later2 message ?c') = transcribeCalls ?c' + 1"
    unfolding h by (simp add: bufferChunk_frame)
qed

theorem C7_transcribing_cleared_witness:
  "isTranscribing (processAudioChunk rejectingEnv 0 5 ''A'' (bufferChunk 0 loudChunk startedClient)) ''A''
     = Some False
   \<and> transcribeCalls (processAudioChunk rejectingEnv 0 5 ''A'' (bufferChunk 0 loudChunk startedClient)) = 1
   \<and> isTranscribing (handleAudioChunk (resolvingEnv (str ''hello'')) 50 60 nextChunk
        (processAudioChunk rejectingEnv 0 5 ''A'' (bufferChunk 0 loudChunk startedClient))) ''A''
     = Some False
   \<and> transcribeCalls (handleAudioChunk (resolvingEnv (str ''hello'')) 50 60 nextChunk
        (processAudioChunk rejectingEnv 0 5 ''A'' (bufferChunk 0 loudChunk startedClient))) = 2"
proof -
  let ?c = "bufferChunk 0 loudChunk startedClient"
  let ?c' = "processAudioChunk rejectingEnv 0 5 ''A'' ?c"
  let ?env2 = "resolvingEnv (str ''hello'')"
  obtain s b where sb: "streamingSessions ?c ''A'' = Some s" "transcriptionBuffers ?c ''A'' = Some b"
    using loaded_client(2,3) by blast
  have nt: "isTranscribing ?c ''A'' \<noteq> Some True" by (simp add: loaded_client)
  obtain wav where wav: "toWAVBuffer (env_kMaxLength rejectingEnv) (env_junk rejectingEnv) loadedProcessor = Inr (Some wav)"
    using loadedProcessor_facts(3) by (auto simp add: rejectingEnv_def)
  have c': "?c' = ?c\<lparr>isTranscribing := (isTranscribing ?c)(''A'' \<mapsto> False), transcribeCalls := transcribeCalls ?c + 1\<rparr>"
    using loaded_client(1) sb nt wav loadedProcessor_facts(2) by (rule rejected_pipeline)
  have calls: "transcribeCalls ?c' = 1" unfolding c' by (simp add: loaded_client)
  have "audioProcessors ?c' ''A'' = Some loadedProcessor" "streamingSessions ?c' ''A'' = Some s"
    unfolding c' using sb by (simp_all add: loaded_client(1))
  then have p': "audioProcessors (bufferChunk 50 nextChunk ?c') ''A'' = Some (addSamples 50 [1000] loadedProcessor)"
    using handleAudioChunk_bufferChunk(2) [of ?c' nextChunk loadedProcessor s 50]
    by (simp add: nextChunk_def)
  obtain wav2 where wav2: "toWAVBuffer (env_kMaxLength ?env2) (env_junk ?env2) (addSamples 50 [1000] loadedProcessor) = Inr (Some wav2)"
    using next_processor_facts(3) by (auto simp add: resolvingEnv_def)
  note main = C7_transcribing_cleared [OF loaded_client(1) sb nt, of rejectingEnv 0 5]
  from main have 1: "isTranscribing ?c' ''A'' = Some False" by blast
  from main have step: "msg_ucid nextChunk = ''A'' \<and> msg_samples nextChunk \<noteq> []
          \<and> audioProcessors (bufferChunk 50 nextChunk ?c') ''A'' = Some (addSamples 50 [1000] loadedProcessor)
          \<and> shouldSendToAPI 50 (addSamples 50 [1000] loadedProcessor) \<longrightarrow>
            handleAudioChunk ?env2 50 60 nextChunk ?c'
              = processAudioChunk ?env2 50 60 ''A'' (bufferChunk 50 nextChunk ?c')
            \<and> isTranscribing (handleAudioChunk ?env2 50 60 nextChunk ?c') ''A'' = Some False
            \<and> (\<forall>wav. toWAVBuffer (env_kMaxLength ?env2) (env_junk ?env2) (addSamples 50 [1000] loadedProcessor) = Inr (Some wav)
                      \<and> validateAudioChunk (addSamples 50 [1000] loadedProcessor) \<longrightarrow>
                  transcribeCalls (handleAudioChunk ?env2 50 60 nextChunk ?c')
                    = transcribeCalls ?c' + 1)"
    by blast
  have pre: "msg_ucid nextChunk = ''A'' \<and> msg_samples nextChunk \<noteq> []
          \<and> audioProcessors (bufferChunk 50 nextChunk ?c') ''A'' = Some (addSamples 50 [1000] loadedProcessor)
          \<and> shouldSendToAPI 50 (addSamples 50 [1000] loadedProcessor)"
    using p' next_processor_facts(1) by (simp add: nextChunk_def)
  from step pre wav2 next_processor_facts(2)
  have 2: "isTranscribing (handleAudioChunk ?env2 50 60 nextChunk ?c') ''A'' = Some False"
    and 3: "transcribeCalls (handleAudioChunk ?env2 50 60 nextChunk ?c') = transcribeCalls ?c' + 1"
    by blast+
  from 1 2 3 calls show ?thesis by simp
qed

text \<open>
  C10. For every transcription text that is shorter than 2 code units after trimming,
  \<open>isValidTranscription\<close> is false, and \<open>streamTranscription\<close>, when the service resolves
  with that text, only counts the request: the transcription buffer is not appended to and no
  response is generated.
\<close>

theorem C10_short_transcription_filtered:
  assumes "length (trim t) < 2"
  shows "\<not> isValidTranscription t
     \<and> (transcriptionsCreate env (transcribeCalls c) audioBuffer (if lang = ''auto'' then None else Some lang)
           = Resolved tr \<and> transcriptionText tr = Some t \<longrightarrow>
         streamTranscription env ucid audioBuffer lang c = (None, c\<lparr>transcribeCalls := transcribeCalls c + 1\<rparr>))"
proof -
  have "length (trim (trim t)) < 2"
    using assms length_trim_le [of "trim t"] by simp
  then have "\<not> isValidTranscription (trim t)"
    by (rule isValidTranscription_short)
  then show ?thesis
    using assms by (auto simp add: isValidTranscription_short streamTranscription_def Let_def)
qed

theorem C10_short_transcription_filtered_witness:
  "length (trim (str '' 4 '')) < 2
   \<and> \<not> list_ex (\<lambda>pattern. pattern (trim (str '' 4 ''))) hallucinations
   \<and> \<not> isValidTranscription (str '' 4 '')
   \<and> streamTranscription (resolvingEnv (str '' 4 '')) ''A'' [] ''en'' startedClient
       = (None, startedClient\<lparr>transcribeCalls := transcribeCalls startedClient + 1\<rparr>)"
proof -
  have t: "trim (str '' 4 '') = [52]"
    by (simp add: str_def trim_def isWhiteSpace_def)
  have l: "length (trim (str '' 4 '')) < 2" by (simp add: t)
  have h: "\<not> list_ex (\<lambda>pattern. pattern (trim (str '' 4 ''))) hallucinations"
    unfolding t by (simp add: hallucinations_def str_def matches_ci_def canonicalize_def isWhiteSpace_def)
  from C10_short_transcription_filtered [OF l, of "resolvingEnv (str '' 4 '')" startedClient "[]" "''en''"
      "\<lparr>transcriptionText = Some (str '' 4 ''), transcriptionLanguage = None\<rparr>" "''A''"] l h
  show ?thesis by (simp add: resolvingEnv_def)
qed



end
